theory Spec2Isabelle
  imports Main "HOL-Library.Sublist"
begin

section \<open>JavaScript values and strings\<close>

text \<open>
  A JavaScript string is represented by bytes, one \<^typ>\<open>char\<close> per byte: the UTF-8
  encoding of its characters, a surrogate that has no partner (which a JavaScript string
  can hold, and \<open>JSON.parse\<close> can produce) being written as the three bytes of its code
  point. Such a string is not valid UTF-8. Substring search, first-occurrence
  replacement and the character classes of the two regular expressions of the client
  (\<open>[^}=]\<close>, \<open>[^}]\<close>) are used here on patterns delimited by ASCII characters, where
  they act on bytes as they do on UTF-16 code units.

  The arguments of a tool call are JSON: \<open>js\<close> is the type of their values. The client
  never computes with a number, it only prints it, so a number is given by the text that
  \<open>String\<close> prints for it. An object is the list of its own entries in the order of
  \<open>Object.entries\<close>, each key once; properties inherited from \<open>Object.prototype\<close> are
  not looked up, and no template of the client names one.
\<close>

datatype js =
    JUndefined
  | JNull
  | JBool bool
  | JNum string
  | JStr string
  | JArr "js list"
  | JObj "(string \<times> js) list"

type_synonym params = "(string \<times> js) list"

text \<open>
  What JavaScript can throw here: an \<open>Error\<close> with its message, the cancellation error
  of axios (the values \<open>axios.isCancel\<close> recognises; it is an \<open>Error\<close> too), or a value
  that is no \<open>Error\<close>, given by its \<open>String(...)\<close> text.
\<close>

datatype thrown = Err string | AxiosCancel string | NonError string

text \<open>
  The \<open>TypeError\<close> of \<open>String(value)\<close> and the \<open>URIError\<close> of \<open>encodeURIComponent\<close>,
  with the messages of V8, the engine of Node.
\<close>

definition primitive_TypeError :: thrown where
  "primitive_TypeError = Err ''Cannot convert object to primitive value''"

definition URIError :: thrown where
  "URIError = Err ''URI malformed''"

text \<open>\<open>params[key]\<close>: an absent key reads as \<open>undefined\<close>.\<close>

definition js_get :: "params \<Rightarrow> string \<Rightarrow> js" where
  "js_get ps k = (case map_of ps k of None \<Rightarrow> JUndefined | Some v \<Rightarrow> v)"

text \<open>
  \<open>String(value)\<close>. An array prints its elements separated by commas, \<open>null\<close> and
  \<open>undefined\<close> elements as the empty string. An object from JSON prints as
  \<open>[object Object]\<close> through the inherited \<open>toString\<close>; when it has an own key
  \<open>toString\<close>, whose value cannot be called, neither \<open>toString\<close> nor \<open>valueOf\<close> gives a
  primitive and \<open>String\<close> throws a \<open>TypeError\<close>.
\<close>

fun js_String :: "js \<Rightarrow> thrown + string"
  and js_element :: "js \<Rightarrow> thrown + string"
  and js_join :: "js list \<Rightarrow> thrown + string" where
  "js_String JUndefined = Inr ''undefined''"
| "js_String JNull = Inr ''null''"
| "js_String (JBool b) = Inr (if b then ''true'' else ''false'')"
| "js_String (JNum t) = Inr t"
| "js_String (JStr s) = Inr s"
| "js_String (JArr vs) = js_join vs"
| "js_String (JObj es) =
     (if ''toString'' \<in> set (map fst es) then Inl primitive_TypeError
      else Inr ''[object Object]'')"
| "js_element v = (if v = JUndefined \<or> v = JNull then Inr [] else js_String v)"
| "js_join [] = Inr []"
| "js_join (v # vs) =
     (case js_element v of
        Inl e \<Rightarrow> Inl e
      | Inr t \<Rightarrow>
          (if vs = [] then Inr t
           else (case js_join vs of Inl e \<Rightarrow> Inl e | Inr r \<Rightarrow> Inr (t @ '','' @ r))))"

subsection \<open>String search and replacement\<close>

text \<open>\<open>s.includes(pat)\<close>.\<close>

fun str_includes :: "string \<Rightarrow> string \<Rightarrow> bool" where
  "str_includes pat [] = (pat = [])"
| "str_includes pat (c # cs) = (prefix pat (c # cs) \<or> str_includes pat cs)"

text \<open>
  \<open>s.replace(pat, rep)\<close> for a string pattern: only the first occurrence is replaced.
  The replacement strings of the client are outputs of \<open>encodePathComponent\<close>, which
  never contain \<open>$\<close>, so no replacement pattern of JavaScript applies.
\<close>

fun replace_first :: "string \<Rightarrow> string \<Rightarrow> string \<Rightarrow> string" where
  "replace_first pat rep [] = (if pat = [] then rep else [])"
| "replace_first pat rep (c # cs) =
     (if prefix pat (c # cs) then rep @ drop (length pat) (c # cs)
      else c # replace_first pat rep cs)"

text \<open>\<open>s.replace(/%2F/g, '/')\<close>: every occurrence, left to right.\<close>

fun unescape_slashes :: "string \<Rightarrow> string" where
  "unescape_slashes (a # b # c # cs) =
     (if [a, b, c] = ''%2F'' then CHR ''/'' # unescape_slashes cs
      else a # unescape_slashes (b # c # cs))"
| "unescape_slashes cs = cs"

subsection \<open>\<open>encodeURIComponent\<close>\<close>

text \<open>
  Well-formed UTF-8: the shortest encoding of every code point up to \<open>U+10FFFF\<close> except
  the surrogates \<open>U+D800\<close> to \<open>U+DFFF\<close>. The bytes of a JavaScript string are
  well-formed UTF-8 unless the string has a surrogate without partner.
\<close>

definition byte_in :: "nat \<Rightarrow> nat \<Rightarrow> char \<Rightarrow> bool" where
  "byte_in lo hi c = (lo \<le> (of_char c :: nat) \<and> (of_char c :: nat) \<le> hi)"

fun utf8 :: "string \<Rightarrow> bool" where
  "utf8 [] = True"
| "utf8 (a # s) =
     (if byte_in 0x00 0x7F a then utf8 s
      else if byte_in 0xC2 0xDF a then
        (case s of b # s1 \<Rightarrow> byte_in 0x80 0xBF b \<and> utf8 s1 | _ \<Rightarrow> False)
      else if byte_in 0xE0 0xEF a then
        (case s of
           b # c # s2 \<Rightarrow>
             byte_in (if a = CHR 0xE0 then 0xA0 else 0x80) (if a = CHR 0xED then 0x9F else 0xBF) b
             \<and> byte_in 0x80 0xBF c \<and> utf8 s2
         | _ \<Rightarrow> False)
      else if byte_in 0xF0 0xF4 a then
        (case s of
           b # c # d # s3 \<Rightarrow>
             byte_in (if a = CHR 0xF0 then 0x90 else 0x80) (if a = CHR 0xF4 then 0x8F else 0xBF) b
             \<and> byte_in 0x80 0xBF c \<and> byte_in 0x80 0xBF d \<and> utf8 s3
         | _ \<Rightarrow> False)
      else False)"

definition uri_unreserved :: "char \<Rightarrow> bool" where
  "uri_unreserved c =
     (c \<in> set ''ABCDEFGHIJKLMNOPQRSTUVWXYZabcdefghijklmnopqrstuvwxyz0123456789-_.!~*()''
      \<or> c = CHR 0x27)"

definition hex_digit :: "nat \<Rightarrow> char" where
  "hex_digit d = (if d < 10 then char_of (48 + d) else char_of (55 + d))"

definition percent_escape :: "char \<Rightarrow> string" where
  "percent_escape c =
     [CHR ''%'', hex_digit ((of_char c :: nat) div 16), hex_digit ((of_char c :: nat) mod 16)]"

text \<open>
  \<open>encodeURIComponent\<close> throws a \<open>URIError\<close> for a string with a surrogate without
  partner; otherwise it escapes every byte of every character outside its unreserved
  set.
\<close>

definition encodeURIComponent :: "string \<Rightarrow> thrown + string" where
  "encodeURIComponent s =
     (if utf8 s
      then Inr (concat (map (\<lambda>c. if uri_unreserved c then [c] else percent_escape c) s))
      else Inl URIError)"

text \<open>The local function \<open>encodePathComponent\<close> of \<open>buildPath\<close>.\<close>

definition encodePathComponent :: "string \<Rightarrow> thrown + string" where
  "encodePathComponent v =
     (case encodeURIComponent v of Inl e \<Rightarrow> Inl e | Inr t \<Rightarrow> Inr (unescape_slashes t))"

text \<open>\<open>encodePathComponent(String(value))\<close>: \<open>String\<close> first, then the encoding.\<close>

definition encode_value :: "js \<Rightarrow> thrown + string" where
  "encode_value v =
     (case js_String v of Inl e \<Rightarrow> Inl e | Inr t \<Rightarrow> encodePathComponent t)"

section \<open>Path templates\<close>

text \<open>The character class \<open>[^}=]\<close> of both regular expressions.\<close>

definition name_char :: "char \<Rightarrow> bool" where
  "name_char c = (c \<noteq> CHR ''}'' \<and> c \<noteq> CHR ''='')"

text \<open>
  One attempt of \<open>/{([^}=]+)=[^}]*}/\<close> at the head of a string: the full match and its
  group 1. Both repetitions are greedy and stop at the first character outside their
  class; a shorter repetition would be followed by a character of the class, never by
  the \<open>=\<close> or \<open>}\<close> the expression needs next, so backtracking finds nothing more.
\<close>

definition google_at :: "string \<Rightarrow> (string \<times> string) option" where
  "google_at s =
     (case s of
        [] \<Rightarrow> None
      | c # cs \<Rightarrow>
          if c \<noteq> CHR ''{'' then None
          else let name = takeWhile name_char cs in
            if name = [] then None
            else (case dropWhile name_char cs of
                    [] \<Rightarrow> None
                  | d # r \<Rightarrow>
                      if d \<noteq> CHR ''='' then None
                      else (case dropWhile (\<lambda>x. x \<noteq> CHR ''}'') r of
                              [] \<Rightarrow> None
                            | e # r' \<Rightarrow>
                                Some (CHR ''{'' # name @ CHR ''='' #
                                        takeWhile (\<lambda>x. x \<noteq> CHR ''}'') r @ ''}'', name))))"

text \<open>
  The loop \<open>while ((match = googlePathTemplateRegex.exec(template)) !== null)\<close> visits
  the matches from left to right; after a match the search resumes behind it
  (\<open>lastIndex\<close>), which \<open>skip\<close> counts down here.
\<close>

fun google_scan :: "nat \<Rightarrow> string \<Rightarrow> (string \<times> string) list" where
  "google_scan skip [] = []"
| "google_scan skip (c # cs) =
     (if 0 < skip then google_scan (skip - 1) cs
      else (case google_at (c # cs) of
              Some (full, name) \<Rightarrow> (full, name) # google_scan (length full - 1) cs
            | None \<Rightarrow> google_scan 0 cs))"

definition google_matches :: "string \<Rightarrow> (string \<times> string) list" where
  "google_matches template = google_scan 0 template"

text \<open>One attempt of \<open>/{([^}=]+)}/\<close> at the head of a string: the text between the braces.\<close>

definition standard_at :: "string \<Rightarrow> string option" where
  "standard_at s =
     (case s of
        [] \<Rightarrow> None
      | c # cs \<Rightarrow>
          if c \<noteq> CHR ''{'' then None
          else let name = takeWhile name_char cs in
            if name = [] then None
            else (case dropWhile name_char cs of
                    [] \<Rightarrow> None
                  | d # r \<Rightarrow> if d = CHR ''}'' then Some name else None))"

text \<open>
  \<open>pathTemplate.match(/{([^}=]+)}/g) || []\<close>, each match already without its braces
  (\<open>paramTemplate.slice(1, -1)\<close>).
\<close>

fun standard_scan :: "nat \<Rightarrow> string \<Rightarrow> string list" where
  "standard_scan skip [] = []"
| "standard_scan skip (c # cs) =
     (if 0 < skip then standard_scan (skip - 1) cs
      else (case standard_at (c # cs) of
              Some name \<Rightarrow> name # standard_scan (length name + 1) cs
            | None \<Rightarrow> standard_scan 0 cs))"

definition standard_names :: "string \<Rightarrow> string list" where
  "standard_names template = standard_scan 0 template"

subsection \<open>\<open>buildPath\<close>\<close>

text \<open>
  The first loop of \<open>buildPath\<close>: Google-style placeholders \<open>{name=pattern}\<close>. The
  state is the pair of \<open>path\<close> and \<open>processedParams\<close>. A value that \<open>String\<close> or
  \<open>encodeURIComponent\<close> rejects ends the loop with what they throw.
\<close>

fun google_loop ::
  "(string \<times> string) list \<Rightarrow> params \<Rightarrow> string \<times> string list \<Rightarrow> thrown + string \<times> string list" where
  "google_loop [] ps st = Inr st"
| "google_loop ((full, name) # ms) ps (path, processed) =
     (if name \<noteq> [] \<and> js_get ps name \<noteq> JUndefined
      then (case encode_value (js_get ps name) of
              Inl e \<Rightarrow> Inl e
            | Inr rep \<Rightarrow> google_loop ms ps (replace_first full rep path, processed @ [name]))
      else google_loop ms ps (path, processed))"

text \<open>
  The second loop: \<open>for (const [key, value] of Object.entries(params))\<close>. The value is
  converted only when the placeholder of the key is in the path.
\<close>

fun standard_loop :: "params \<Rightarrow> string \<times> string list \<Rightarrow> thrown + string \<times> string list" where
  "standard_loop [] st = Inr st"
| "standard_loop ((key, v) # es) (path, processed) =
     (if key \<notin> set processed
      then (let standardTemplate = ''{'' @ key @ ''}'' in
            if str_includes standardTemplate path
            then (case encode_value v of
                    Inl e \<Rightarrow> Inl e
                  | Inr rep \<Rightarrow>
                      standard_loop es
                        (replace_first standardTemplate rep path, processed @ [key]))
            else standard_loop es (path, processed))
      else standard_loop es (path, processed))"

text \<open>\<open>buildPath\<close> returns the path (\<open>Inr\<close>) or throws (\<open>Inl\<close>).\<close>

definition buildPath :: "string \<Rightarrow> params \<Rightarrow> thrown + string" where
  "buildPath template ps =
     (case google_loop (google_matches template) ps (template, []) of
        Inl e \<Rightarrow> Inl e
      | Inr st \<Rightarrow>
          (case standard_loop ps st of
             Inl e \<Rightarrow> Inl e
           | Inr (path, processed) \<Rightarrow> Inr path))"

section \<open>Requests, effects and the environment\<close>

text \<open>\<open>axios.isCancel(error)\<close>\<close>

fun isCancel :: "thrown \<Rightarrow> bool" where
  "isCancel (AxiosCancel m) = True"
| "isCancel e = False"

text \<open>\<open>error instanceof Error ? error.message : String(error)\<close>\<close>

fun error_text :: "thrown \<Rightarrow> string" where
  "error_text (Err m) = m"
| "error_text (AxiosCancel m) = m"
| "error_text (NonError t) = t"

text \<open>\<open>error instanceof Error && error.message === 'Request was cancelled'\<close>\<close>

fun is_cancellation_error :: "thrown \<Rightarrow> bool" where
  "is_cancellation_error (Err m) = (m = ''Request was cancelled'')"
| "is_cancellation_error (AxiosCancel m) = (m = ''Request was cancelled'')"
| "is_cancellation_error (NonError t) = False"

text \<open>
  A progress token is a string or a number, as in the progress specification of the
  protocol that the README of the server cites. As a condition
  (\<open>context?.progressToken && progressReporter\<close>) the empty string and zero count as
  false.
\<close>

datatype token = TokStr string | TokNum int

fun truthy :: "token \<Rightarrow> bool" where
  "truthy (TokStr s) = (s \<noteq> [])"
| "truthy (TokNum n) = (n \<noteq> 0)"

text \<open>
  Modelled from the spec: the declaration of \<open>RequestContext\<close>
  (\<open>services/request-tracker\<close> is not among the sources). The fields are those of the
  data model of the specification, under the names \<open>executeTool\<close> reads them by.
  \<open>abortController\<close> is a reference: the state of the controller's signal lives in the
  store \<open>signals\<close> below, shared with whoever else holds the controller.
\<close>

record RequestContext =
  requestId :: string
  progressToken :: "token option"
  abortController :: nat
  startTime :: nat

datatype http_method = GET | POST | PATCH | PUT | DELETE

record http_request =
  verb :: http_method
  url :: string
  query :: params
  body :: "params option"
  abort_signal :: "nat option"

datatype level = Debug | Info | Warn | Error

text \<open>
  The observable effects of a call, in the order they happen: calls of the logger (level,
  event name, and the tool or endpoint they are about), requests handed to the HTTP
  client, and progress notifications forwarded to the transport.
\<close>

datatype event =
    Log level string string
  | ToolStart string
  | ToolSuccess string
  | ToolError string thrown
  | Request http_request
  | Notification token nat "nat option" string

record content_block =
  block_type :: string
  block_text :: string

type_synonym tool_result = "content_block list"

text \<open>
  The mutable state a call can reach. \<open>request_context\<close> is the \<open>RequestContext\<close> object
  passed as the argument \<open>context\<close> (\<open>None\<close> when the caller passes none): JavaScript
  passes it by reference, so a write to it would show here. \<open>signals\<close> gives for every
  \<open>AbortController\<close> the state of its signal: \<open>None\<close> while not aborted, the reason once
  aborted. \<open>initialized\<close> is the field of \<open>AirtableTools\<close>. \<open>cancellations\<close> and
  \<open>progress_tokens\<close> are the entries of the Cancellation Registry and of the Progress
  Correlator; \<open>controllers\<close> counts the controllers created so far.
\<close>

record world =
  request_context :: "RequestContext option"
  signals :: "nat \<Rightarrow> string option"
  initialized :: bool
  cancellations :: "string \<Rightarrow> nat option"
  controllers :: nat
  progress_tokens :: "token set"
  trace :: "event list"

text \<open>
  The world outside: what the HTTP client answers to a request, together with the
  controllers that are aborted (with which reason) while the request is in flight;
  \<open>JSON.stringify(data, null, 2)\<close> on response data; and the message of the engine's
  \<open>TypeError\<close> when an endpoint method reads its parameters and they are \<open>undefined\<close>.
  Response data is taken to be a JSON value, for which \<open>JSON.stringify\<close> returns a string.
\<close>

datatype 'd http_outcome = Resolves 'd | Rejects thrown

record 'd env =
  http :: "http_request \<Rightarrow> 'd http_outcome \<times> (nat \<times> string) list"
  stringify :: "'d \<Rightarrow> string"
  type_error :: "string \<Rightarrow> string"

definition log :: "level \<Rightarrow> string \<Rightarrow> string \<Rightarrow> world \<Rightarrow> world" where
  "log l ev subject w = w\<lparr>trace := trace w @ [Log l ev subject]\<rparr>"

definition record_event :: "event \<Rightarrow> world \<Rightarrow> world" where
  "record_event e w = w\<lparr>trace := trace w @ [e]\<rparr>"

text \<open>\<open>AbortController.abort(reason)\<close>: a signal that is aborted already keeps its reason.\<close>

definition abort :: "nat \<times> string \<Rightarrow> world \<Rightarrow> world" where
  "abort ar w =
     (case signals w (fst ar) of
        None \<Rightarrow> w\<lparr>signals := (signals w)(fst ar := Some (snd ar))\<rparr>
      | Some r \<Rightarrow> w)"

section \<open>Cancellation Registry and Progress Correlator\<close>

datatype registry_error = DuplicateRequestId

text \<open>
  Modelled from the spec: \<open>register\<close> of the Cancellation Registry
  (\<open>services/request-tracker\<close> is not among the sources). It creates and stores a new
  inactive signal and fails only on a duplicate id.
\<close>

definition registry_register :: "string \<Rightarrow> world \<Rightarrow> registry_error + nat \<times> world" where
  "registry_register rid w =
     (case cancellations w rid of
        Some a \<Rightarrow> Inl DuplicateRequestId
      | None \<Rightarrow>
          Inr (controllers w,
               w\<lparr>signals := (signals w)(controllers w := None),
                 cancellations := (cancellations w)(rid := Some (controllers w)),
                 controllers := Suc (controllers w)\<rparr>))"

text \<open>
  Modelled from the spec: \<open>cancel\<close> of the Cancellation Registry. It activates the signal
  if the id is currently registered; otherwise it is silently ignored.
\<close>

definition registry_cancel :: "string \<Rightarrow> string \<Rightarrow> world \<Rightarrow> registry_error + world" where
  "registry_cancel rid reason w =
     (case cancellations w rid of
        None \<Rightarrow> Inr w
      | Some a \<Rightarrow> Inr (abort (a, reason) w))"

text \<open>
  Modelled from the spec: \<open>unregister\<close> of the Cancellation Registry. It removes the
  entry and is safe to call when the entry is already removed.
\<close>

definition registry_unregister :: "string \<Rightarrow> world \<Rightarrow> world" where
  "registry_unregister rid w = w\<lparr>cancellations := (cancellations w)(rid := None)\<rparr>"

text \<open>
  Modelled from the spec: \<open>register\<close> of the Progress Correlator
  (\<open>services/progress-reporter\<close> is not among the sources).
\<close>

definition progress_register :: "token \<Rightarrow> world \<Rightarrow> world" where
  "progress_register t w = w\<lparr>progress_tokens := insert t (progress_tokens w)\<rparr>"

text \<open>
  Modelled from the spec: \<open>emit\<close> of the Progress Correlator. It forwards a progress
  notification to the transport if the token is currently registered; otherwise the
  event is silently dropped. \<open>progressReporter.report(token, progress)\<close> and the callback
  made by \<open>progressReporter.createProgressCallback(token)\<close> are both this \<open>emit\<close>.
\<close>

definition progress_emit :: "token \<Rightarrow> nat \<Rightarrow> nat option \<Rightarrow> string \<Rightarrow> world \<Rightarrow> world" where
  "progress_emit t p tot msg w =
     (if t \<in> progress_tokens w then record_event (Notification t p tot msg) w else w)"

text \<open>Modelled from the spec: \<open>unregister\<close> of the Progress Correlator.\<close>

definition progress_unregister :: "token \<Rightarrow> world \<Rightarrow> world" where
  "progress_unregister t w = w\<lparr>progress_tokens := progress_tokens w - {t}\<rparr>"

section \<open>The client: \<open>AirtableClient\<close>\<close>

text \<open>
  The eighteen endpoint methods of the client are one text up to four things: the
  endpoint name, the HTTP method, the path template, and the sequence of blocks
  \<open>if (params[""] !== undefined) { ... }\<close> that the generator emitted, one for each
  parameter declared for the query or the body. A block copies \<open>params[""]\<close> to the query
  (\<open>ToQuery\<close>), to the query after joining an array with commas (\<open>ToQueryJoined\<close>), or
  to the body (\<open>ToBody\<close>).
\<close>

datatype block = ToQuery | ToQueryJoined | ToBody

record endpoint =
  ep_name :: string
  ep_verb :: http_method
  ep_path :: string
  ep_blocks :: "block list"

text \<open>
  An array index: the canonical decimal text of an integer below \<open>2^32 - 1\<close>. An object
  lists its keys that are array indices first, in ascending order, then its other keys
  in the order of their creation.
\<close>

fun decimal_value :: "string \<Rightarrow> nat \<Rightarrow> nat option" where
  "decimal_value [] n = Some n"
| "decimal_value (c # cs) n =
     (if byte_in 48 57 c then decimal_value cs (10 * n + ((of_char c :: nat) - 48)) else None)"

definition array_index :: "string \<Rightarrow> nat option" where
  "array_index k =
     (case k of
        [] \<Rightarrow> None
      | c # cs \<Rightarrow>
          if c = CHR ''0'' \<and> cs \<noteq> [] then None
          else (case decimal_value k 0 of
                  None \<Rightarrow> None
                | Some n \<Rightarrow> if n < 4294967295 then Some n else None))"

definition index_below :: "nat \<Rightarrow> string \<times> js \<Rightarrow> bool" where
  "index_below n kv = (case array_index (fst kv) of None \<Rightarrow> False | Some m \<Rightarrow> m < n)"

text \<open>
  \<open>object[key] = value\<close> on an object made by \<open>{}\<close>: an existing key keeps its place; a
  new key that is an array index goes behind the smaller indices, any other new key goes
  last. The key \<open>__proto__\<close> is the accessor of \<open>Object.prototype\<close>: the assignment
  creates no entry.
\<close>

definition js_set :: "params \<Rightarrow> string \<Rightarrow> js \<Rightarrow> params" where
  "js_set ps k v =
     (if k = ''__proto__'' then ps
      else if k \<in> set (map fst ps)
      then map (\<lambda>kv. if fst kv = k then (k, v) else kv) ps
      else (case array_index k of
              None \<Rightarrow> ps @ [(k, v)]
            | Some n \<Rightarrow> takeWhile (index_below n) ps @ (k, v) # dropWhile (index_below n) ps))"

text \<open>
  The extraction of the path parameters: first the Google-style placeholders of the
  template, then the standard ones. The state is \<open>pathParams\<close> and \<open>extractedParams\<close>.
\<close>

fun extract_google :: "(string \<times> string) list \<Rightarrow> params \<Rightarrow> params \<times> string list \<Rightarrow> params \<times> string list" where
  "extract_google [] ps st = st"
| "extract_google ((full, name) # ms) ps (pathParams, extracted) =
     (if name \<noteq> [] \<and> js_get ps name \<noteq> JUndefined
      then extract_google ms ps (js_set pathParams name (js_get ps name), extracted @ [name])
      else extract_google ms ps (pathParams, extracted))"

fun extract_standard :: "string list \<Rightarrow> params \<Rightarrow> params \<times> string list \<Rightarrow> params \<times> string list" where
  "extract_standard [] ps st = st"
| "extract_standard (name # ns) ps (pathParams, extracted) =
     (if name \<notin> set extracted
      then (if js_get ps name \<noteq> JUndefined
            then extract_standard ns ps (js_set pathParams name (js_get ps name), extracted @ [name])
            else if name = ''userId''
            then extract_standard ns ps (js_set pathParams name (JStr ''me''), extracted @ [name])
            else extract_standard ns ps (pathParams, extracted))
      else extract_standard ns ps (pathParams, extracted))"

text \<open>\<open>Array.isArray(v) ? v.join(',') : v\<close>; \<open>join\<close> throws what \<open>String\<close> of an element throws.\<close>

fun join_if_array :: "js \<Rightarrow> thrown + js" where
  "join_if_array (JArr vs) = (case js_join vs of Inl e \<Rightarrow> Inl e | Inr t \<Rightarrow> Inr (JStr t))"
| "join_if_array v = Inr v"

text \<open>The blocks on \<open>params[""]\<close>. The state is \<open>queryParams\<close>, \<open>bodyParams\<close>, \<open>extractedParams\<close>.\<close>

fun run_blocks ::
  "block list \<Rightarrow> params \<Rightarrow> params \<times> params \<times> string list \<Rightarrow> thrown + params \<times> params \<times> string list" where
  "run_blocks [] ps st = Inr st"
| "run_blocks (b # bs) ps (queryParams, bodyParams, extracted) =
     (if js_get ps [] \<noteq> JUndefined
      then (case b of
              ToQuery \<Rightarrow>
                run_blocks bs ps (js_set queryParams [] (js_get ps []), bodyParams, extracted @ [[]])
            | ToQueryJoined \<Rightarrow>
                (case join_if_array (js_get ps []) of
                   Inl e \<Rightarrow> Inl e
                 | Inr joined \<Rightarrow>
                     run_blocks bs ps (js_set queryParams [] joined, bodyParams, extracted @ [[]]))
            | ToBody \<Rightarrow>
                run_blocks bs ps (queryParams, js_set bodyParams [] (js_get ps []), extracted @ [[]]))
      else run_blocks bs ps (queryParams, bodyParams, extracted))"

text \<open>
  \<open>for (const [key, value] of Object.entries(params)) if (!extractedParams.includes(key))
  bodyParams[key] = value\<close>
\<close>

fun remaining_to_body :: "params \<Rightarrow> string list \<Rightarrow> params \<Rightarrow> params" where
  "remaining_to_body [] extracted bodyParams = bodyParams"
| "remaining_to_body ((key, v) # es) extracted bodyParams =
     remaining_to_body es extracted
       (if key \<notin> set extracted then js_set bodyParams key v else bodyParams)"

text \<open>
  The request an endpoint method hands to the HTTP client, or what is thrown before
  there is one. \<open>get\<close> and \<open>delete\<close> carry no body; \<open>post\<close>, \<open>patch\<close> and \<open>put\<close>
  carry \<open>bodyParams\<close> if it has a key (and \<open>hasRawArrayBody\<close> is never set). Between the
  extraction and the call nothing checks that a required parameter is there.
\<close>

definition build_request :: "endpoint \<Rightarrow> params \<Rightarrow> nat option \<Rightarrow> thrown + http_request" where
  "build_request ep ps sig =
     (let (pathParams, extracted) =
            extract_standard (standard_names (ep_path ep)) ps
              (extract_google (google_matches (ep_path ep)) ps ([], []))
      in case run_blocks (ep_blocks ep) ps ([], [], extracted) of
           Inl e \<Rightarrow> Inl e
         | Inr (queryParams, bodyParams, extracted') \<Rightarrow>
             (let bodyParams' = remaining_to_body ps extracted' bodyParams
              in case buildPath (ep_path ep) pathParams of
                   Inl e \<Rightarrow> Inl e
                 | Inr path \<Rightarrow>
                     Inr \<lparr>verb = ep_verb ep,
                          url = (if path = ''/'' then [] else path),
                          query = queryParams,
                          body = (if ep_verb ep \<in> {POST, PATCH, PUT} \<and> bodyParams' \<noteq> []
                                  then Some bodyParams' else None),
                          abort_signal = sig\<rparr>))"

text \<open>The \<open>RequestOptions\<close> an endpoint method receives.\<close>

record request_options =
  opt_signal :: "nat option"
  onProgress :: "token option"

definition text_result :: "string \<Rightarrow> tool_result" where
  "text_result t = [\<lparr>block_type = ''text'', block_text = t\<rparr>]"

text \<open>The \<open>catch\<close> block of an endpoint method.\<close>

definition endpoint_catch :: "endpoint \<Rightarrow> thrown \<Rightarrow> world \<Rightarrow> (thrown + tool_result) \<times> world" where
  "endpoint_catch ep e w =
     (if isCancel e
      then (Inl (Err ''Request was cancelled''), log Info ''REQUEST_CANCELLED'' (ep_name ep) w)
      else (Inl (Err (''Failed to execute '' @ ep_name ep @ '': '' @ error_text e)),
            log Error ''ENDPOINT_ERROR'' (ep_name ep) w))"

text \<open>
  An endpoint method (\<open>listBases\<close>, \<open>getRecord\<close>, ...). With \<open>params\<close> undefined the first
  read of a parameter inside the \<open>try\<close> throws a \<open>TypeError\<close>. What the building of the
  request throws is caught by the same \<open>catch\<close>, and no request goes out. The
  interceptors installed by the constructor only log and delay; they pass requests,
  responses and errors on unchanged and are part of \<open>http\<close> here.
\<close>

definition call_endpoint ::
  "'d env \<Rightarrow> endpoint \<Rightarrow> params option \<Rightarrow> request_options \<Rightarrow> world \<Rightarrow> (thrown + tool_result) \<times> world" where
  "call_endpoint E ep args opts w =
     (let w1 = log Info ''ENDPOINT_START'' (ep_name ep) w in
      case args of
        None \<Rightarrow> endpoint_catch ep (Err (type_error E (ep_name ep))) w1
      | Some ps \<Rightarrow>
          (case build_request ep ps (opt_signal opts) of
             Inl e \<Rightarrow> endpoint_catch ep e w1
           | Inr req \<Rightarrow>
               (let w2 = log Debug ''PATH_BUILD'' (ep_path ep) w1;
                    w3 = (case onProgress opts of
                            None \<Rightarrow> w2
                          | Some t \<Rightarrow>
                              progress_emit t 0 (Some 100)
                                (''Starting '' @ ep_name ep @ '' request...'') w2);
                    w4 = record_event (Request req) w3;
                    w5 = fold abort (snd (http E req)) w4
                in case fst (http E req) of
                     Rejects e \<Rightarrow> endpoint_catch ep e w5
                   | Resolves d \<Rightarrow>
                       (let w6 = (case onProgress opts of
                                    None \<Rightarrow> w5
                                  | Some t \<Rightarrow>
                                      progress_emit t 100 (Some 100)
                                        (''Completed '' @ ep_name ep @ '' request'') w5);
                            w7 = log Info ''ENDPOINT_SUCCESS'' (ep_name ep) w6
                        in (Inr (text_result (stringify E d)), w7)))))"

section \<open>The dispatcher: \<open>AirtableTools\<close>\<close>

definition supportedTools :: "string list" where
  "supportedTools =
     [''airtable_list_bases'',
      ''airtable_get_base_schema'',
      ''airtable_list_records'',
      ''airtable_get_record'',
      ''airtable_create_records'',
      ''airtable_update_records'',
      ''airtable_replace_records'',
      ''airtable_delete_records'',
      ''airtable_get_table'',
      ''airtable_create_table'',
      ''airtable_update_table'',
      ''airtable_create_field'',
      ''airtable_update_field'',
      ''airtable_list_views'',
      ''airtable_get_view'',
      ''airtable_create_view'',
      ''airtable_update_view'',
      ''airtable_delete_view'']"

definition canHandle :: "string \<Rightarrow> bool" where
  "canHandle toolName = (toolName \<in> set supportedTools)"

text \<open>
  The \<open>switch\<close> of \<open>executeTool\<close>: each \<open>case\<close> names the client method it calls, given
  here by the method's endpoint.
\<close>

definition tool_cases :: "(string \<times> endpoint) list" where
  "tool_cases =
     [(''airtable_list_bases'',
         \<lparr>ep_name = ''list_bases'', ep_verb = GET, ep_path = ''/meta/bases'',
          ep_blocks = [ToQuery]\<rparr>),
      (''airtable_get_base_schema'',
         \<lparr>ep_name = ''get_base_schema'', ep_verb = GET,
          ep_path = ''/meta/bases/{base_id}/tables'', ep_blocks = []\<rparr>),
      (''airtable_list_records'',
         \<lparr>ep_name = ''list_records'', ep_verb = GET,
          ep_path = ''/{base_id}/{table_id_or_name}'',
          ep_blocks = [ToQueryJoined, ToQuery, ToQuery, ToQuery, ToQueryJoined,
                       ToQuery, ToQuery, ToQuery, ToQuery, ToQuery]\<rparr>),
      (''airtable_get_record'',
         \<lparr>ep_name = ''get_record'', ep_verb = GET,
          ep_path = ''/{base_id}/{table_id_or_name}/{record_id}'', ep_blocks = []\<rparr>),
      (''airtable_create_records'',
         \<lparr>ep_name = ''create_records'', ep_verb = POST,
          ep_path = ''/{base_id}/{table_id_or_name}'', ep_blocks = [ToBody, ToBody]\<rparr>),
      (''airtable_update_records'',
         \<lparr>ep_name = ''update_records'', ep_verb = PATCH,
          ep_path = ''/{base_id}/{table_id_or_name}'', ep_blocks = [ToBody, ToBody]\<rparr>),
      (''airtable_replace_records'',
         \<lparr>ep_name = ''replace_records'', ep_verb = PUT,
          ep_path = ''/{base_id}/{table_id_or_name}'', ep_blocks = [ToBody, ToBody]\<rparr>),
      (''airtable_delete_records'',
         \<lparr>ep_name = ''delete_records'', ep_verb = DELETE,
          ep_path = ''/{base_id}/{table_id_or_name}'', ep_blocks = [ToQueryJoined]\<rparr>),
      (''airtable_get_table'',
         \<lparr>ep_name = ''get_table'', ep_verb = GET,
          ep_path = ''/meta/bases/{base_id}/tables/{table_id}'', ep_blocks = []\<rparr>),
      (''airtable_create_table'',
         \<lparr>ep_name = ''create_table'', ep_verb = POST,
          ep_path = ''/meta/bases/{base_id}/tables'', ep_blocks = [ToBody, ToBody, ToBody]\<rparr>),
      (''airtable_update_table'',
         \<lparr>ep_name = ''update_table'', ep_verb = PATCH,
          ep_path = ''/meta/bases/{base_id}/tables/{table_id}'', ep_blocks = [ToBody, ToBody]\<rparr>),
      (''airtable_create_field'',
         \<lparr>ep_name = ''create_field'', ep_verb = POST,
          ep_path = ''/meta/bases/{base_id}/tables/{table_id}/fields'',
          ep_blocks = [ToBody, ToBody, ToBody, ToBody]\<rparr>),
      (''airtable_update_field'',
         \<lparr>ep_name = ''update_field'', ep_verb = PATCH,
          ep_path = ''/meta/bases/{base_id}/tables/{table_id}/fields/{field_id}'',
          ep_blocks = [ToBody, ToBody, ToBody]\<rparr>),
      (''airtable_list_views'',
         \<lparr>ep_name = ''list_views'', ep_verb = GET,
          ep_path = ''/meta/bases/{base_id}/tables/{table_id}/views'', ep_blocks = []\<rparr>),
      (''airtable_get_view'',
         \<lparr>ep_name = ''get_view'', ep_verb = GET,
          ep_path = ''/meta/bases/{base_id}/tables/{table_id}/views/{view_id}'',
          ep_blocks = []\<rparr>),
      (''airtable_create_view'',
         \<lparr>ep_name = ''create_view'', ep_verb = POST,
          ep_path = ''/meta/bases/{base_id}/tables/{table_id}/views'',
          ep_blocks = [ToBody, ToBody, ToBody, ToBody]\<rparr>),
      (''airtable_update_view'',
         \<lparr>ep_name = ''update_view'', ep_verb = PATCH,
          ep_path = ''/meta/bases/{base_id}/tables/{table_id}/views/{view_id}'',
          ep_blocks = [ToBody, ToBody, ToBody]\<rparr>),
      (''airtable_delete_view'',
         \<lparr>ep_name = ''delete_view'', ep_verb = DELETE,
          ep_path = ''/meta/bases/{base_id}/tables/{table_id}/views/{view_id}'',
          ep_blocks = []\<rparr>)]"

definition ensureInitialized :: "world \<Rightarrow> world" where
  "ensureInitialized w =
     (if \<not> initialized w
      then log Info ''CLIENT_INITIALIZATION'' ''airtable''
             ((log Info ''CLIENT_INITIALIZATION'' ''airtable''
                (log Info ''TOOLS_INIT'' ''airtable'' w))\<lparr>initialized := True\<rparr>)
      else w)"

text \<open>\<open>context?.abortController.signal.aborted\<close>\<close>

definition signal_aborted :: "world \<Rightarrow> bool" where
  "signal_aborted w =
     (case request_context w of
        None \<Rightarrow> False
      | Some c \<Rightarrow> signals w (abortController c) \<noteq> None)"

text \<open>
  \<open>context?.progressToken && progressReporter\<close>, as the token to report on. The
  argument \<open>progressReporter\<close> is whether the caller passed the reporter.
\<close>

definition progress_target :: "bool \<Rightarrow> world \<Rightarrow> token option" where
  "progress_target progressReporter w =
     (case request_context w of
        None \<Rightarrow> None
      | Some c \<Rightarrow>
          (case progressToken c of
             None \<Rightarrow> None
           | Some t \<Rightarrow> if truthy t \<and> progressReporter then Some t else None))"

definition report :: "token option \<Rightarrow> nat \<Rightarrow> string \<Rightarrow> world \<Rightarrow> world" where
  "report target p msg w =
     (case target of None \<Rightarrow> w | Some t \<Rightarrow> progress_emit t p (Some 100) msg w)"

text \<open>
  The request options made at the head of the \<open>try\<close> block: the signal of the context's
  controller, and a progress callback for the token to report on.
\<close>

definition request_options_of :: "bool \<Rightarrow> world \<Rightarrow> request_options" where
  "request_options_of progressReporter w =
     \<lparr>opt_signal = map_option abortController (request_context w),
      onProgress = progress_target progressReporter w\<rparr>"

text \<open>
  The \<open>switch\<close> inside the \<open>try\<close> block: the case of the tool, or the \<open>default\<close> case.
  Every case logs, reports the start, awaits the client method and reports the
  completion; a rejected client method leaves the case at once.
\<close>

definition run_case ::
  "'d env \<Rightarrow> string \<Rightarrow> params option \<Rightarrow> bool \<Rightarrow> world \<Rightarrow> (thrown + tool_result) \<times> world" where
  "run_case E name args progressReporter w =
     (let requestOptions = request_options_of progressReporter w
      in case map_of tool_cases name of
           None \<Rightarrow> (Inl (Err (''Unknown tool: '' @ name)), w)
         | Some ep \<Rightarrow>
             (let w1 = log Debug ''TOOL_EXECUTE'' name w;
                  w2 = report (progress_target progressReporter w1) 0
                         (''Starting '' @ ep_name ep @ '' operation...'') w1;
                  (result, w3) = call_endpoint E ep args requestOptions w2
              in case result of
                   Inl e \<Rightarrow> (Inl e, w3)
                 | Inr r \<Rightarrow>
                     (Inr r,
                      report (progress_target progressReporter w3) 100
                        (''Completed '' @ ep_name ep @ '' operation'') w3)))"

text \<open>
  \<open>executeTool(name, args, context, progressReporter)\<close>; the \<open>context\<close> argument is
  \<open>request_context w\<close>. A thrown value is \<open>Inl\<close>, the returned result \<open>Inr\<close>.
\<close>

definition executeTool ::
  "'d env \<Rightarrow> string \<Rightarrow> params option \<Rightarrow> bool \<Rightarrow> world \<Rightarrow> (thrown + tool_result) \<times> world" where
  "executeTool E name args progressReporter w =
     (let w1 = record_event (ToolStart name) w in
      if signal_aborted w1
      then (Inl (Err ''Request was cancelled''), log Info ''TOOL_CANCELLED_EARLY'' name w1)
      else
        (let w2 = ensureInitialized w1 in
         if \<not> canHandle name
         then (Inl (Err (''Unknown tool: '' @ name)), log Error ''TOOL_ERROR'' name w2)
         else
           (let w3 = log Debug ''PARAM_VALIDATION'' name w2;
                (result, w4) = run_case E name args progressReporter w3
            in case result of
                 Inr r \<Rightarrow> (Inr r, record_event (ToolSuccess name) w4)
               | Inl e \<Rightarrow>
                   (Inl e,
                    if signal_aborted w4 \<or> is_cancellation_error e
                    then log Info ''TOOL_CANCELLED'' name w4
                    else record_event (ToolError name e) w4))))"

section \<open>Vocabulary of the specification\<close>

text \<open>
  The terminal state of an invocation, read off the last call \<open>executeTool\<close> makes to
  the logger before it returns or throws.
\<close>

datatype terminal = COMPLETED | FAILED | CANCELLED

fun terminal_of_event :: "event \<Rightarrow> terminal option" where
  "terminal_of_event (ToolSuccess n) = Some COMPLETED"
| "terminal_of_event (ToolError n e) = Some FAILED"
| "terminal_of_event (Log l ev n) =
     (if l = Error \<and> ev = ''TOOL_ERROR'' then Some FAILED
      else if l = Info \<and> ev \<in> {''TOOL_CANCELLED'', ''TOOL_CANCELLED_EARLY''} then Some CANCELLED
      else None)"
| "terminal_of_event e = None"

definition terminal_state :: "world \<Rightarrow> terminal option" where
  "terminal_state w = (case rev (trace w) of [] \<Rightarrow> None | e # es \<Rightarrow> terminal_of_event e)"

text \<open>
  The client methods entered (each logs \<open>ENDPOINT_START\<close> first), the HTTP requests
  issued, and the progress notifications delivered to the transport, each in order.
\<close>

fun handler_calls :: "event list \<Rightarrow> string list" where
  "handler_calls [] = []"
| "handler_calls (Log l ev n # es) =
     (if l = Info \<and> ev = ''ENDPOINT_START'' then n # handler_calls es else handler_calls es)"
| "handler_calls (e # es) = handler_calls es"

fun requests_of :: "event list \<Rightarrow> http_request list" where
  "requests_of [] = []"
| "requests_of (Request r # es) = r # requests_of es"
| "requests_of (e # es) = requests_of es"

fun is_notification :: "event \<Rightarrow> bool" where
  "is_notification (Notification t p tot msg) = True"
| "is_notification e = False"

definition notifications :: "event list \<Rightarrow> event list" where
  "notifications es = filter is_notification es"

text \<open>The effects a call adds to those already in the trace.\<close>

definition effects :: "world \<Rightarrow> world \<Rightarrow> event list" where
  "effects w w' = drop (length (trace w)) (trace w')"

text \<open>
  What the client method of a tool answers to the call \<open>executeTool\<close> makes: the thrown
  value or the returned result. The answer depends on the environment, the arguments
  and the request options, not on the effects that precede the call.
\<close>

definition handler_result ::
  "'d env \<Rightarrow> string \<Rightarrow> params option \<Rightarrow> bool \<Rightarrow> world \<Rightarrow> (thrown + tool_result) option" where
  "handler_result E name args progressReporter w =
     (case map_of tool_cases name of
        None \<Rightarrow> None
      | Some ep \<Rightarrow>
          Some (fst (call_endpoint E ep args (request_options_of progressReporter w) w)))"

text \<open>
  The notification a progress event on the target \<open>tgt\<close> puts on the transport in the
  state \<open>w\<close>: none without a target or for a token that is not registered.
\<close>

definition delivered :: "token option \<Rightarrow> nat \<Rightarrow> string \<Rightarrow> world \<Rightarrow> event list" where
  "delivered tgt p msg w =
     (case tgt of
        None \<Rightarrow> []
      | Some t \<Rightarrow> if t \<in> progress_tokens w then [Notification t p (Some 100) msg] else [])"

text \<open>The log calls of \<open>ensureInitialized\<close>.\<close>

definition init_logs :: "world \<Rightarrow> event list" where
  "init_logs w =
     (if initialized w then []
      else [Log Info ''TOOLS_INIT'' ''airtable'',
            Log Info ''CLIENT_INITIALIZATION'' ''airtable'',
            Log Info ''CLIENT_INITIALIZATION'' ''airtable''])"

section \<open>Templates as segments\<close>

text \<open>
  A path template read as the claim about \<open>buildPath\<close> reads it: literal text and
  placeholders \<open>{name}\<close>. \<open>render\<close> gives the template string back.
\<close>

datatype seg = Lit string | Hole string

definition hole_text :: "string \<Rightarrow> string" where
  "hole_text k = ''{'' @ k @ ''}''"

fun render_seg :: "seg \<Rightarrow> string" where
  "render_seg (Lit s) = s"
| "render_seg (Hole k) = hole_text k"

definition render :: "seg list \<Rightarrow> string" where
  "render segs = concat (map render_seg segs)"

definition brace_free :: "string \<Rightarrow> bool" where
  "brace_free s = (CHR ''{'' \<notin> set s \<and> CHR ''}'' \<notin> set s)"

text \<open>
  Literal text has no braces; a placeholder name has no braces and no \<open>=\<close> (with \<open>=\<close> it
  would be a Google-style placeholder); no placeholder occurs twice.
\<close>

fun wf_seg :: "seg \<Rightarrow> bool" where
  "wf_seg (Lit s) = brace_free s"
| "wf_seg (Hole k) = (brace_free k \<and> CHR ''='' \<notin> set k)"

fun holes :: "seg list \<Rightarrow> string list" where
  "holes [] = []"
| "holes (Lit s # segs) = holes segs"
| "holes (Hole k # segs) = k # holes segs"

definition well_formed :: "seg list \<Rightarrow> bool" where
  "well_formed segs = (list_all wf_seg segs \<and> distinct (holes segs))"

text \<open>
  The encoding in the words of the claim, byte by byte: URI-encoded with the forward
  slashes preserved. The unreserved characters and the slash stay, every other byte is
  escaped.
\<close>

definition uri_encoded_keeping_slashes :: "string \<Rightarrow> string" where
  "uri_encoded_keeping_slashes t =
     concat (map (\<lambda>c. if uri_unreserved c \<or> c = CHR ''/'' then [c] else percent_escape c) t)"

text \<open>
  A value can be put into a path when \<open>String\<close> gives a text for it and the text has no
  surrogate without partner; \<open>value_text\<close> is that text.
\<close>

definition convertible :: "js \<Rightarrow> bool" where
  "convertible v = (case js_String v of Inl e \<Rightarrow> False | Inr t \<Rightarrow> utf8 t)"

definition value_text :: "js \<Rightarrow> string" where
  "value_text v = (case js_String v of Inl e \<Rightarrow> [] | Inr t \<Rightarrow> t)"

text \<open>
  The substitution in the words of the claim: a placeholder whose key is in the map
  becomes the encoded value, a placeholder whose key is absent stays as it is written.
\<close>

fun fill_seg :: "params \<Rightarrow> seg \<Rightarrow> seg" where
  "fill_seg ps (Lit s) = Lit s"
| "fill_seg ps (Hole k) =
     (case map_of ps k of
        None \<Rightarrow> Hole k
      | Some v \<Rightarrow> Lit (uri_encoded_keeping_slashes (value_text v)))"

definition substitute :: "params \<Rightarrow> seg list \<Rightarrow> string" where
  "substitute ps segs = render (map (fill_seg ps) segs)"

text \<open>The values of the placeholders of a template can all be put into a path.\<close>

definition all_convertible :: "params \<Rightarrow> seg list \<Rightarrow> bool" where
  "all_convertible ps segs =
     list_all (\<lambda>k. case map_of ps k of None \<Rightarrow> True | Some v \<Rightarrow> convertible v) (holes segs)"

text \<open>One step of the second loop of \<open>buildPath\<close> on segments: the first placeholder \<open>{k}\<close>.\<close>

fun fill_first :: "string \<Rightarrow> string \<Rightarrow> seg list \<Rightarrow> seg list" where
  "fill_first k rep [] = []"
| "fill_first k rep (Lit s # segs) = Lit s # fill_first k rep segs"
| "fill_first k rep (Hole k' # segs) =
     (if k' = k then Lit rep # segs else Hole k' # fill_first k rep segs)"

text \<open>The nine path templates of the client, as segments.\<close>

definition client_templates :: "seg list list" where
  "client_templates =
     [[Lit ''/meta/bases''],
      [Lit ''/meta/bases/'', Hole ''base_id'', Lit ''/tables''],
      [Lit ''/'', Hole ''base_id'', Lit ''/'', Hole ''table_id_or_name''],
      [Lit ''/'', Hole ''base_id'', Lit ''/'', Hole ''table_id_or_name'', Lit ''/'',
       Hole ''record_id''],
      [Lit ''/meta/bases/'', Hole ''base_id'', Lit ''/tables/'', Hole ''table_id''],
      [Lit ''/meta/bases/'', Hole ''base_id'', Lit ''/tables/'', Hole ''table_id'',
       Lit ''/fields''],
      [Lit ''/meta/bases/'', Hole ''base_id'', Lit ''/tables/'', Hole ''table_id'',
       Lit ''/fields/'', Hole ''field_id''],
      [Lit ''/meta/bases/'', Hole ''base_id'', Lit ''/tables/'', Hole ''table_id'',
       Lit ''/views''],
      [Lit ''/meta/bases/'', Hole ''base_id'', Lit ''/tables/'', Hole ''table_id'',
       Lit ''/views/'', Hole ''view_id'']]"

text \<open>The template of \<open>getRecord\<close> and the template of \<open>getBaseSchema\<close>.\<close>

definition get_record_template :: "seg list" where
  "get_record_template =
     [Lit ''/'', Hole ''base_id'', Lit ''/'', Hole ''table_id_or_name'', Lit ''/'',
      Hole ''record_id'']"

definition base_schema_template :: "seg list" where
  "base_schema_template = [Lit ''/meta/bases/'', Hole ''base_id'', Lit ''/tables'']"

text \<open>
  Path parameters of \<open>getRecord\<close> without \<open>base_id\<close>, with a space and a slash in the
  table name.
\<close>

definition record_path_params :: params where
  "record_path_params =
     [(''table_id_or_name'', JStr ''My Table/v2''), (''record_id'', JStr ''rec1'')]"

text \<open>
  The string of the one surrogate \<open>U+D800\<close> without partner, as JSON can carry it by
  an escape; and arguments for \<open>airtable_get_base_schema\<close> with this string as
  \<open>base_id\<close>.
\<close>

definition lone_surrogate :: string where
  "lone_surrogate = [CHR 0xED, CHR 0xA0, CHR 0x80]"

definition surrogate_args :: params where
  "surrogate_args = [(''base_id'', JStr lone_surrogate)]"

text \<open>Arguments whose \<open>base_id\<close> is the JSON object \<open>{"toString": 1}\<close>.\<close>

definition object_args :: params where
  "object_args = [(''base_id'', JObj [(''toString'', JNum ''1'')])]"

text \<open>
  Templates that are not among those of the client: one names a placeholder twice, one
  has two placeholders side by side, with a parameter whose key spans them.
\<close>

definition twice_template :: "seg list" where
  "twice_template = [Lit ''/'', Hole ''a'', Lit ''/'', Hole ''a'']"

definition adjacent_template :: "seg list" where
  "adjacent_template = [Lit ''/'', Hole ''a'', Hole ''b'']"

definition spanning_params :: params where
  "spanning_params = [(''a}{b'', JStr ''x'')]"

section \<open>Example inputs\<close>

definition example_context :: "token option \<Rightarrow> RequestContext" where
  "example_context tok =
     \<lparr>requestId = ''r1'', progressToken = tok, abortController = 0, startTime = 0\<rparr>"

text \<open>A server with one request \<open>r1\<close> in flight, its token (if any) registered.\<close>

definition in_flight :: "token option \<Rightarrow> world" where
  "in_flight tok =
     \<lparr>request_context = Some (example_context tok),
      signals = (\<lambda>a. None),
      initialized = False,
      cancellations = (\<lambda>r. None)(''r1'' := Some 0),
      controllers = 1,
      progress_tokens = (case tok of None \<Rightarrow> {} | Some t \<Rightarrow> {t}),
      trace = []\<rparr>"

text \<open>The same after a cancellation notification for \<open>r1\<close> has arrived.\<close>

definition cancelled_world :: world where
  "cancelled_world = (in_flight None)\<lparr>signals := (\<lambda>a. None)(0 := Some ''user'')\<rparr>"

text \<open>An HTTP client that answers every request with the data \<open>{}\<close>.\<close>

definition answering :: "string env" where
  "answering =
     \<lparr>http = (\<lambda>req. (Resolves ''{}'', [])),
      stringify = (\<lambda>d. d),
      type_error = (\<lambda>n. ''Cannot convert undefined or null to object'')\<rparr>"

text \<open>
  An HTTP client whose requests are cancelled in flight: the controller \<open>0\<close> is aborted
  and the request rejects with the cancellation error of axios.
\<close>

definition cancelling :: "string env" where
  "cancelling =
     \<lparr>http = (\<lambda>req. (Rejects (AxiosCancel ''canceled''), [(0, ''user'')])),
      stringify = (\<lambda>d. d),
      type_error = (\<lambda>n. ''Cannot convert undefined or null to object'')\<rparr>"

text \<open>Arguments for \<open>airtable_create_records\<close>, and the endpoints of two tools.\<close>

definition create_args :: params where
  "create_args =
     [(''base_id'', JStr ''app1''), (''table_id_or_name'', JStr ''Tasks''), (''records'', JArr [])]"

definition create_records_endpoint :: endpoint where
  "create_records_endpoint =
     \<lparr>ep_name = ''create_records'', ep_verb = POST,
      ep_path = ''/{base_id}/{table_id_or_name}'', ep_blocks = [ToBody, ToBody]\<rparr>"

definition list_bases_endpoint :: endpoint where
  "list_bases_endpoint =
     \<lparr>ep_name = ''list_bases'', ep_verb = GET, ep_path = ''/meta/bases'',
      ep_blocks = [ToQuery]\<rparr>"

text \<open>The requests these endpoints make for the arguments above and for no arguments.\<close>

definition create_request :: http_request where
  "create_request =
     \<lparr>verb = POST, url = ''/app1/Tasks'', query = [], body = Some [(''records'', JArr [])],
      abort_signal = Some 0\<rparr>"

definition list_bases_request :: http_request where
  "list_bases_request =
     \<lparr>verb = GET, url = ''/meta/bases'', query = [], body = None, abort_signal = Some 0\<rparr>"

text \<open>Arguments for \<open>airtable_get_record\<close> that lack the required \<open>base_id\<close>.\<close>

definition get_record_args :: params where
  "get_record_args = [(''table_id_or_name'', JStr ''Tasks''), (''record_id'', JStr ''rec1'')]"

section \<open>Frame lemmas\<close>

lemma log_fields [simp]:
  "trace (log l ev n w) = trace w @ [Log l ev n]"
  "signals (log l ev n w) = signals w"
  "request_context (log l ev n w) = request_context w"
  "initialized (log l ev n w) = initialized w"
  "cancellations (log l ev n w) = cancellations w"
  "controllers (log l ev n w) = controllers w"
  "progress_tokens (log l ev n w) = progress_tokens w"
  by (simp_all add: log_def)

lemma record_event_fields [simp]:
  "trace (record_event e w) = trace w @ [e]"
  "signals (record_event e w) = signals w"
  "request_context (record_event e w) = request_context w"
  "initialized (record_event e w) = initialized w"
  "cancellations (record_event e w) = cancellations w"
  "controllers (record_event e w) = controllers w"
  "progress_tokens (record_event e w) = progress_tokens w"
  by (simp_all add: record_event_def)

lemma abort_fields [simp]:
  "trace (abort ar w) = trace w"
  "request_context (abort ar w) = request_context w"
  "initialized (abort ar w) = initialized w"
  "cancellations (abort ar w) = cancellations w"
  "controllers (abort ar w) = controllers w"
  "progress_tokens (abort ar w) = progress_tokens w"
  by (simp_all add: abort_def split: option.splits)

lemma fold_abort_fields [simp]:
  "trace (fold abort ars w) = trace w"
  "request_context (fold abort ars w) = request_context w"
  "initialized (fold abort ars w) = initialized w"
  "cancellations (fold abort ars w) = cancellations w"
  "controllers (fold abort ars w) = controllers w"
  "progress_tokens (fold abort ars w) = progress_tokens w"
  by (induction ars arbitrary: w, simp_all)+

lemma progress_emit_fields [simp]:
  "trace (progress_emit t p tot msg w) =
     trace w @ (if t \<in> progress_tokens w then [Notification t p tot msg] else [])"
  "signals (progress_emit t p tot msg w) = signals w"
  "request_context (progress_emit t p tot msg w) = request_context w"
  "initialized (progress_emit t p tot msg w) = initialized w"
  "cancellations (progress_emit t p tot msg w) = cancellations w"
  "controllers (progress_emit t p tot msg w) = controllers w"
  "progress_tokens (progress_emit t p tot msg w) = progress_tokens w"
  by (simp_all add: progress_emit_def)

lemma report_fields [simp]:
  "signals (report tg p msg w) = signals w"
  "request_context (report tg p msg w) = request_context w"
  "initialized (report tg p msg w) = initialized w"
  "cancellations (report tg p msg w) = cancellations w"
  "controllers (report tg p msg w) = controllers w"
  "progress_tokens (report tg p msg w) = progress_tokens w"
  by (simp_all add: report_def split: option.splits)

lemma ensureInitialized_fields [simp]:
  "signals (ensureInitialized w) = signals w"
  "request_context (ensureInitialized w) = request_context w"
  "cancellations (ensureInitialized w) = cancellations w"
  "controllers (ensureInitialized w) = controllers w"
  "progress_tokens (ensureInitialized w) = progress_tokens w"
  by (simp_all add: ensureInitialized_def)

lemma signal_aborted_frame:
  "request_context w' = request_context w \<Longrightarrow> signals w' = signals w \<Longrightarrow>
   signal_aborted w' = signal_aborted w"
  by (simp add: signal_aborted_def split: option.splits)

lemma signal_aborted_simps [simp]:
  "signal_aborted (log l ev n w) = signal_aborted w"
  "signal_aborted (record_event e w) = signal_aborted w"
  "signal_aborted (report tg p msg w) = signal_aborted w"
  "signal_aborted (progress_emit t p tot msg w) = signal_aborted w"
  "signal_aborted (ensureInitialized w) = signal_aborted w"
  by (rule signal_aborted_frame; simp)+

lemma handler_calls_append [simp]:
  "handler_calls (xs @ ys) = handler_calls xs @ handler_calls ys"
  by (induction xs rule: handler_calls.induct) simp_all

lemma requests_of_append [simp]:
  "requests_of (xs @ ys) = requests_of xs @ requests_of ys"
  by (induction xs rule: requests_of.induct) simp_all

lemma terminal_state_last [simp]:
  "terminal_state (log l ev n w) = terminal_of_event (Log l ev n)"
  "terminal_state (record_event e w) = terminal_of_event e"
  by (simp_all add: terminal_state_def)

section \<open>The client and the dispatcher, step by step\<close>

lemma signals_abort_cong:
  "signals w = signals w' \<Longrightarrow> signals (abort ar w) = signals (abort ar w')"
  by (simp add: abort_def split: option.splits)

lemma signals_fold_abort_cong:
  "signals w = signals w' \<Longrightarrow> signals (fold abort ars w) = signals (fold abort ars w')"
proof (induction ars arbitrary: w w')
  case Nil
  then show ?case by simp
next
  case (Cons ar ars)
  from Cons.prems have "signals (abort ar w) = signals (abort ar w')"
    by (rule signals_abort_cong)
  then have "signals (fold abort ars (abort ar w)) = signals (fold abort ars (abort ar w'))"
    by (rule Cons.IH)
  then show ?case by simp
qed

lemma abort_keeps:
  "signals w a = Some r \<Longrightarrow> signals (abort ar w) a = Some r"
  by (auto simp: abort_def split: option.splits)

lemma fold_abort_keeps:
  "signals w a = Some r \<Longrightarrow> signals (fold abort ars w) a = Some r"
  by (induction ars arbitrary: w) (simp_all add: abort_keeps)

lemma ensureInitialized_trace:
  "trace (ensureInitialized w) =
     trace w @ (if initialized w then []
                else [Log Info ''TOOLS_INIT'' ''airtable'',
                      Log Info ''CLIENT_INITIALIZATION'' ''airtable'',
                      Log Info ''CLIENT_INITIALIZATION'' ''airtable''])"
  by (simp add: ensureInitialized_def)

lemma endpoint_catch_result:
  "fst (endpoint_catch ep e w) =
     Inl (Err (if isCancel e then ''Request was cancelled''
               else ''Failed to execute '' @ ep_name ep @ '': '' @ error_text e))"
  by (simp add: endpoint_catch_def)

lemma endpoint_catch_fields [simp]:
  "signals (snd (endpoint_catch ep e w)) = signals w"
  "request_context (snd (endpoint_catch ep e w)) = request_context w"
  "initialized (snd (endpoint_catch ep e w)) = initialized w"
  "cancellations (snd (endpoint_catch ep e w)) = cancellations w"
  "controllers (snd (endpoint_catch ep e w)) = controllers w"
  "progress_tokens (snd (endpoint_catch ep e w)) = progress_tokens w"
  by (simp_all add: endpoint_catch_def)

lemma call_endpoint_result:
  "fst (call_endpoint E ep args opts w) =
     (case args of
        None \<Rightarrow> Inl (Err (''Failed to execute '' @ ep_name ep @ '': '' @ type_error E (ep_name ep)))
      | Some ps \<Rightarrow>
          (case build_request ep ps (opt_signal opts) of
             Inl e \<Rightarrow>
               Inl (Err (if isCancel e then ''Request was cancelled''
                         else ''Failed to execute '' @ ep_name ep @ '': '' @ error_text e))
           | Inr req \<Rightarrow>
               (case fst (http E req) of
                  Rejects e \<Rightarrow>
                    Inl (Err (if isCancel e then ''Request was cancelled''
                              else ''Failed to execute '' @ ep_name ep @ '': '' @ error_text e))
                | Resolves d \<Rightarrow> Inr (text_result (stringify E d)))))"
  by (simp add: call_endpoint_def Let_def endpoint_catch_result
           split: option.splits sum.splits http_outcome.splits)

lemma call_endpoint_fields [simp]:
  "request_context (snd (call_endpoint E ep args opts w)) = request_context w"
  "initialized (snd (call_endpoint E ep args opts w)) = initialized w"
  "cancellations (snd (call_endpoint E ep args opts w)) = cancellations w"
  "controllers (snd (call_endpoint E ep args opts w)) = controllers w"
  "progress_tokens (snd (call_endpoint E ep args opts w)) = progress_tokens w"
  by (simp_all add: call_endpoint_def Let_def
        split: option.splits sum.splits http_outcome.splits)

lemma call_endpoint_signals:
  "signals (snd (call_endpoint E ep args opts w)) =
     (case args of
        None \<Rightarrow> signals w
      | Some ps \<Rightarrow>
          (case build_request ep ps (opt_signal opts) of
             Inl e \<Rightarrow> signals w
           | Inr req \<Rightarrow> signals (fold abort (snd (http E req)) w)))"
  by (auto simp: call_endpoint_def Let_def intro!: signals_fold_abort_cong
           split: option.splits sum.splits http_outcome.splits)


text \<open>
  The supported set has eighteen names, and the \<open>switch\<close> has a case for each of them, in
  the same order.
\<close>

lemma supportedTools_eighteen: "length supportedTools = 18 \<and> distinct supportedTools"
  by (simp add: supportedTools_def)

lemma switch_covers_supportedTools: "map fst tool_cases = supportedTools"
  by (simp add: tool_cases_def supportedTools_def)

lemma canHandle_case:
  assumes "canHandle name"
  shows "\<exists>ep. map_of tool_cases name = Some ep"
proof -
  from assms have "name \<in> set supportedTools" by (simp add: canHandle_def)
  then show ?thesis
    unfolding supportedTools_def tool_cases_def by auto
qed

lemma progress_target_frame:
  "request_context w' = request_context w \<Longrightarrow>
   progress_target pr w' = progress_target pr w"
  by (simp add: progress_target_def)

lemma progress_target_simps [simp]:
  "progress_target pr (log l ev n w) = progress_target pr w"
  "progress_target pr (record_event e w) = progress_target pr w"
  "progress_target pr (report tg p msg w) = progress_target pr w"
  "progress_target pr (ensureInitialized w) = progress_target pr w"
  "progress_target pr (snd (call_endpoint E ep args opts w)) = progress_target pr w"
  by (rule progress_target_frame; simp)+

lemma request_options_of_simps [simp]:
  "request_options_of pr (log l ev n w) = request_options_of pr w"
  "request_options_of pr (record_event e w) = request_options_of pr w"
  "request_options_of pr (report tg p msg w) = request_options_of pr w"
  "request_options_of pr (ensureInitialized w) = request_options_of pr w"
  by (simp_all add: request_options_of_def)

lemma call_endpoint_result_any_state:
  "fst (call_endpoint E ep args opts w) = fst (call_endpoint E ep args opts w')"
  by (simp add: call_endpoint_result)

text \<open>
  \<open>executeTool\<close> for a supported tool that passes the check at dispatch, in terms of
  the call of the client method.
\<close>

lemma executeTool_dispatched:
  assumes "canHandle name" and "\<not> signal_aborted w" and "map_of tool_cases name = Some ep"
    and "X = call_endpoint E ep args (request_options_of pr w)
               (report (progress_target pr w) 0 (''Starting '' @ ep_name ep @ '' operation...'')
                 (log Debug ''TOOL_EXECUTE'' name
                   (log Debug ''PARAM_VALIDATION'' name
                     (ensureInitialized (record_event (ToolStart name) w)))))"
  shows "executeTool E name args pr w =
     (case fst X of
        Inr r \<Rightarrow>
          (Inr r,
           record_event (ToolSuccess name)
             (report (progress_target pr w) 100 (''Completed '' @ ep_name ep @ '' operation'')
               (snd X)))
      | Inl e \<Rightarrow>
          (Inl e,
           if signal_aborted (snd X) \<or> is_cancellation_error e
           then log Info ''TOOL_CANCELLED'' name (snd X)
           else record_event (ToolError name e) (snd X)))"
  using assms
  by (simp add: executeTool_def run_case_def Let_def split_beta split: sum.splits)

lemma executeTool_result:
  assumes "canHandle name" and "\<not> signal_aborted w"
  shows "handler_result E name args pr w = Some (fst (executeTool E name args pr w))"
proof -
  from assms(1) obtain ep where ep: "map_of tool_cases name = Some ep"
    using canHandle_case by blast
  define X where "X = call_endpoint E ep args (request_options_of pr w)
               (report (progress_target pr w) 0 (''Starting '' @ ep_name ep @ '' operation...'')
                 (log Debug ''TOOL_EXECUTE'' name
                   (log Debug ''PARAM_VALIDATION'' name
                     (ensureInitialized (record_event (ToolStart name) w)))))"
  have "fst (executeTool E name args pr w) = fst X"
    by (simp add: executeTool_dispatched [OF assms ep X_def] split: sum.splits)
  moreover have "fst X = fst (call_endpoint E ep args (request_options_of pr w) w)"
    unfolding X_def by (rule call_endpoint_result_any_state)
  ultimately show ?thesis by (simp add: handler_result_def ep)
qed


lemma executeTool_request_context:
  "request_context (snd (executeTool E name args pr w)) = request_context w"
  by (simp add: executeTool_def run_case_def Let_def split_beta split: sum.splits option.splits)

lemma executeTool_signals:
  "signals (snd (executeTool E name args pr w)) = signals w
   \<or> (\<exists>req. signals (snd (executeTool E name args pr w)) =
               signals (fold abort (snd (http E req)) w))"
proof -
  have *: "signals (snd (call_endpoint E ep args opts w')) = signals w
           \<or> (\<exists>req. signals (snd (call_endpoint E ep args opts w')) =
                 signals (fold abort (snd (http E req)) w))"
    if "signals w' = signals w" for ep opts w'
  proof (cases args)
    case None
    then show ?thesis using that by (simp add: call_endpoint_signals)
  next
    case (Some ps)
    show ?thesis
    proof (cases "build_request ep ps (opt_signal opts)")
      case (Inl e)
      then show ?thesis using that Some by (simp add: call_endpoint_signals)
    next
      case (Inr req)
      have "signals (fold abort (snd (http E req)) w') = signals (fold abort (snd (http E req)) w)"
        using that by (rule signals_fold_abort_cong)
      then show ?thesis using Some Inr by (auto simp: call_endpoint_signals)
    qed
  qed
  show ?thesis
    by (simp add: executeTool_def run_case_def Let_def split_beta *
             split: sum.splits option.splits)
qed

section \<open>The effects of a call\<close>

lemma effects_append:
  "trace w' = trace w @ es \<Longrightarrow> effects w w' = es"
  by (simp add: effects_def)

lemma notifications_append [simp]:
  "notifications (xs @ ys) = notifications xs @ notifications ys"
  by (simp add: notifications_def)

lemma notifications_delivered [simp]:
  "notifications (delivered tgt p msg w) = delivered tgt p msg w"
  by (simp add: notifications_def delivered_def split: option.splits)

lemma delivered_frame:
  "progress_tokens w' = progress_tokens w \<Longrightarrow> delivered tgt p msg w' = delivered tgt p msg w"
  by (simp add: delivered_def split: option.splits)

lemma delivered_simps [simp]:
  "delivered tgt p msg (log l ev n w) = delivered tgt p msg w"
  "delivered tgt p msg (record_event e w) = delivered tgt p msg w"
  "delivered tgt p msg (report tg p' msg' w) = delivered tgt p msg w"
  "delivered tgt p msg (ensureInitialized w) = delivered tgt p msg w"
  "delivered tgt p msg (snd (call_endpoint E ep args opts w)) = delivered tgt p msg w"
  by (rule delivered_frame; simp)+

lemma report_trace:
  "trace (report tgt p msg w) = trace w @ delivered tgt p msg w"
  by (simp add: report_def delivered_def split: option.splits)

lemma endpoint_catch_trace:
  "trace (snd (endpoint_catch ep e w)) =
     trace w @ [if isCancel e then Log Info ''REQUEST_CANCELLED'' (ep_name ep)
                else Log Error ''ENDPOINT_ERROR'' (ep_name ep)]"
  by (simp add: endpoint_catch_def)

lemma call_endpoint_trace:
  "trace (snd (call_endpoint E ep args opts w)) =
     trace w @ [Log Info ''ENDPOINT_START'' (ep_name ep)] @
     (case args of
        None \<Rightarrow> [Log Error ''ENDPOINT_ERROR'' (ep_name ep)]
      | Some ps \<Rightarrow>
          (case build_request ep ps (opt_signal opts) of
             Inl e \<Rightarrow>
               [if isCancel e then Log Info ''REQUEST_CANCELLED'' (ep_name ep)
                else Log Error ''ENDPOINT_ERROR'' (ep_name ep)]
           | Inr req \<Rightarrow>
               [Log Debug ''PATH_BUILD'' (ep_path ep)] @
               delivered (onProgress opts) 0 (''Starting '' @ ep_name ep @ '' request...'') w @
               [Request req] @
               (case fst (http E req) of
                  Rejects e \<Rightarrow>
                    [if isCancel e then Log Info ''REQUEST_CANCELLED'' (ep_name ep)
                     else Log Error ''ENDPOINT_ERROR'' (ep_name ep)]
                | Resolves d \<Rightarrow>
                    delivered (onProgress opts) 100 (''Completed '' @ ep_name ep @ '' request'') w @
                    [Log Info ''ENDPOINT_SUCCESS'' (ep_name ep)])))"
  by (simp add: call_endpoint_def Let_def endpoint_catch_trace delivered_def
           split: option.splits sum.splits http_outcome.splits)


lemma run_case_trace:
  assumes "map_of tool_cases name = Some ep"
  shows "trace (snd (run_case E name args pr w)) =
     trace w @ [Log Debug ''TOOL_EXECUTE'' name] @
     delivered (progress_target pr w) 0 (''Starting '' @ ep_name ep @ '' operation...'') w @
     effects w (snd (call_endpoint E ep args (request_options_of pr w) w)) @
     (case fst (call_endpoint E ep args (request_options_of pr w) w) of
        Inl e \<Rightarrow> []
      | Inr r \<Rightarrow>
          delivered (progress_target pr w) 100 (''Completed '' @ ep_name ep @ '' operation'') w)"
  using assms
  by (simp add: run_case_def Let_def split_beta report_trace call_endpoint_trace
        call_endpoint_result effects_def
      split: sum.splits option.splits http_outcome.splits)

lemma executeTool_trace:
  assumes "canHandle name" and "\<not> signal_aborted w" and "map_of tool_cases name = Some ep"
  shows "effects w (snd (executeTool E name args pr w)) =
     [ToolStart name] @ init_logs w @
     [Log Debug ''PARAM_VALIDATION'' name, Log Debug ''TOOL_EXECUTE'' name] @
     delivered (progress_target pr w) 0 (''Starting '' @ ep_name ep @ '' operation...'') w @
     effects w (snd (call_endpoint E ep args (request_options_of pr w) w)) @
     (case fst (executeTool E name args pr w) of
        Inl e \<Rightarrow>
          [if signal_aborted (snd (executeTool E name args pr w)) \<or> is_cancellation_error e
           then Log Info ''TOOL_CANCELLED'' name else ToolError name e]
      | Inr r \<Rightarrow>
          delivered (progress_target pr w) 100 (''Completed '' @ ep_name ep @ '' operation'') w @
          [ToolSuccess name])"
proof -
  define X where "X = call_endpoint E ep args (request_options_of pr w)
      (report (progress_target pr w) 0 (''Starting '' @ ep_name ep @ '' operation...'')
         (log Debug ''TOOL_EXECUTE'' name
           (log Debug ''PARAM_VALIDATION'' name
             (ensureInitialized (record_event (ToolStart name) w)))))"
  note ex = executeTool_dispatched [OF assms X_def]
  have fx: "fst X = fst (call_endpoint E ep args (request_options_of pr w) w)"
    unfolding X_def by (rule call_endpoint_result_any_state)
  have tx: "trace (snd X) =
     trace w @ [ToolStart name] @ init_logs w @
     [Log Debug ''PARAM_VALIDATION'' name, Log Debug ''TOOL_EXECUTE'' name] @
     delivered (progress_target pr w) 0 (''Starting '' @ ep_name ep @ '' operation...'') w @
     effects w (snd (call_endpoint E ep args (request_options_of pr w) w))"
    unfolding X_def
    by (simp add: call_endpoint_trace report_trace ensureInitialized_trace init_logs_def
          effects_def split: option.splits sum.splits http_outcome.splits)
  have dx: "delivered tgt p msg (snd X) = delivered tgt p msg w" for tgt p msg
    unfolding X_def by simp
  show ?thesis
    by (rule effects_append)
       (simp add: ex tx dx report_trace split: sum.splits)
qed

lemma call_endpoint_marks_no_failure:
  "ev \<in> set (effects w (snd (call_endpoint E ep args opts w))) \<Longrightarrow>
   terminal_of_event ev \<noteq> Some FAILED"
  by (auto simp: effects_def call_endpoint_trace delivered_def
           split: option.splits sum.splits http_outcome.splits if_splits)

lemma cancelled_call_marks_no_failure:
  assumes "canHandle name" and "\<not> signal_aborted w"
    and "fst (executeTool E name args pr w) = Inl e"
    and "signal_aborted (snd (executeTool E name args pr w)) \<or> is_cancellation_error e"
    and "ev \<in> set (effects w (snd (executeTool E name args pr w)))"
  shows "terminal_of_event ev \<noteq> Some FAILED"
proof -
  from assms(1) obtain ep where ep: "map_of tool_cases name = Some ep"
    using canHandle_case by blast
  from assms(5) have
    "ev \<in> set ([ToolStart name] @ init_logs w @
        [Log Debug ''PARAM_VALIDATION'' name, Log Debug ''TOOL_EXECUTE'' name] @
        delivered (progress_target pr w) 0 (''Starting '' @ ep_name ep @ '' operation...'') w)
     \<or> ev \<in> set (effects w (snd (call_endpoint E ep args (request_options_of pr w) w)))
     \<or> ev = Log Info ''TOOL_CANCELLED'' name"
    using assms(3,4) by (auto simp: executeTool_trace [OF assms(1,2) ep])
  then show ?thesis
    using call_endpoint_marks_no_failure [of ev w E ep args "request_options_of pr w"]
    by (auto simp: init_logs_def delivered_def split: option.splits if_splits)
qed

section \<open>Cancellation before dispatch\<close>

text \<open>
  Claim C1. Whatever the operation name and the arguments, when the cancellation signal
  of the context is already aborted at dispatch, \<open>executeTool\<close> throws the error
  \<open>Request was cancelled\<close>; it returns no success payload, enters no client method and
  issues no HTTP request. The name need not be a supported one. The only effects are the
  two log calls, the second of which marks the invocation as cancelled.
\<close>

theorem C1_cancelled_before_dispatch:
  assumes "signal_aborted w"
  shows "fst (executeTool E name args progressReporter w) = Inl (Err ''Request was cancelled'')
       \<and> effects w (snd (executeTool E name args progressReporter w)) =
           [ToolStart name, Log Info ''TOOL_CANCELLED_EARLY'' name]
       \<and> handler_calls (trace (snd (executeTool E name args progressReporter w))) =
           handler_calls (trace w)
       \<and> requests_of (trace (snd (executeTool E name args progressReporter w))) =
           requests_of (trace w)
       \<and> terminal_state (snd (executeTool E name args progressReporter w)) = Some CANCELLED"
proof -
  have "signal_aborted (record_event (ToolStart name) w)"
    using assms by simp
  then have "executeTool E name args progressReporter w =
      (Inl (Err ''Request was cancelled''),
       log Info ''TOOL_CANCELLED_EARLY'' name (record_event (ToolStart name) w))"
    by (simp add: executeTool_def)
  then show ?thesis by (simp add: effects_def)
qed

theorem C1_cancelled_before_dispatch_witness:
  "signal_aborted cancelled_world
   \<and> \<not> canHandle ''not_a_real_tool''
   \<and> fst (executeTool answering ''not_a_real_tool'' None True cancelled_world) =
       Inl (Err ''Request was cancelled'')
   \<and> handler_calls
       (trace (snd (executeTool answering ''not_a_real_tool'' None True cancelled_world))) = []"
proof -
  have a: "signal_aborted cancelled_world"
    by (simp add: signal_aborted_def cancelled_world_def in_flight_def example_context_def)
  have t: "trace cancelled_world = []"
    by (simp add: cancelled_world_def in_flight_def)
  have n: "\<not> canHandle ''not_a_real_tool''"
    by (simp add: canHandle_def supportedTools_def)
  show ?thesis
    using C1_cancelled_before_dispatch [OF a, of answering "''not_a_real_tool''" None True] a t n
    by simp
qed

section \<open>Unknown operations\<close>

text \<open>
  Claim C2. For a name outside the eighteen supported tool names, and with the
  cancellation signal of the context not aborted at dispatch, \<open>executeTool\<close> throws the
  error \<open>Unknown tool: <name>\<close>. No client method is entered and no HTTP request is
  issued; the last log call marks the invocation as failed.
\<close>

theorem C2_unknown_tool:
  assumes "\<not> canHandle name" and "\<not> signal_aborted w"
  shows "fst (executeTool E name args progressReporter w) = Inl (Err (''Unknown tool: '' @ name))
       \<and> handler_calls (trace (snd (executeTool E name args progressReporter w))) =
           handler_calls (trace w)
       \<and> requests_of (trace (snd (executeTool E name args progressReporter w))) =
           requests_of (trace w)
       \<and> terminal_state (snd (executeTool E name args progressReporter w)) = Some FAILED"
  using assms by (simp add: executeTool_def Let_def ensureInitialized_trace)

theorem C2_unknown_tool_witness:
  "\<not> canHandle ''not_a_real_tool''
   \<and> \<not> signal_aborted (in_flight None)
   \<and> fst (executeTool answering ''not_a_real_tool'' (Some []) True (in_flight None)) =
       Inl (Err ''Unknown tool: not_a_real_tool'')
   \<and> handler_calls
       (trace (snd (executeTool answering ''not_a_real_tool'' (Some []) True (in_flight None)))) = []"
proof -
  have n: "\<not> canHandle ''not_a_real_tool''"
    by (simp add: canHandle_def supportedTools_def)
  have a: "\<not> signal_aborted (in_flight None)"
    by (simp add: signal_aborted_def in_flight_def)
  have t: "trace (in_flight None) = []"
    by (simp add: in_flight_def)
  show ?thesis
    using C2_unknown_tool [OF n a, of answering "Some []" True] n a t by simp
qed

section \<open>Cancellation while running\<close>

text \<open>
  Claim C3. For a supported tool dispatched with the signal not yet aborted: when the
  client method fails with \<open>e\<close>, and the signal is aborted by then or \<open>e\<close> is the error
  \<open>Request was cancelled\<close>, \<open>executeTool\<close> rethrows \<open>e\<close> (so no success payload is
  returned), its last log call is \<open>TOOL_CANCELLED\<close>, and no effect of the call marks a
  failure.
  And the client turns a request that axios reports as cancelled into exactly the error
  \<open>Request was cancelled\<close>, which \<open>executeTool\<close> then classifies as cancelled.
\<close>

theorem C3_cancelled_not_failed:
  assumes "canHandle name" and "\<not> signal_aborted w"
  shows "(handler_result E name args progressReporter w = Some (Inl e)
          \<and> (signal_aborted (snd (executeTool E name args progressReporter w))
               \<or> is_cancellation_error e)
          \<longrightarrow> fst (executeTool E name args progressReporter w) = Inl e
              \<and> terminal_state (snd (executeTool E name args progressReporter w)) = Some CANCELLED
              \<and> (\<forall>ev\<in>set (effects w (snd (executeTool E name args progressReporter w))).
                    terminal_of_event ev \<noteq> Some FAILED))
       \<and> (map_of tool_cases name = Some ep \<and> args = Some ps
          \<and> build_request ep ps (map_option abortController (request_context w)) = Inr req
          \<and> fst (http E req) = Rejects c
          \<and> isCancel c
          \<longrightarrow> handler_result E name args progressReporter w =
                Some (Inl (Err ''Request was cancelled''))
              \<and> fst (executeTool E name args progressReporter w) =
                  Inl (Err ''Request was cancelled'')
              \<and> terminal_state (snd (executeTool E name args progressReporter w)) =
                  Some CANCELLED)"
proof -
  from assms(1) obtain ep' where ep': "map_of tool_cases name = Some ep'"
    using canHandle_case by blast
  define X where "X = call_endpoint E ep' args (request_options_of progressReporter w)
      (report (progress_target progressReporter w) 0
         (''Starting '' @ ep_name ep' @ '' operation...'')
         (log Debug ''TOOL_EXECUTE'' name
           (log Debug ''PARAM_VALIDATION'' name
             (ensureInitialized (record_event (ToolStart name) w)))))"
  note ex = executeTool_dispatched [OF assms ep' X_def]
  note hr = executeTool_result [OF assms, of E args progressReporter]
  have first: "fst (executeTool E name args progressReporter w) = Inl e
      \<and> terminal_state (snd (executeTool E name args progressReporter w)) = Some CANCELLED
      \<and> (\<forall>ev\<in>set (effects w (snd (executeTool E name args progressReporter w))).
            terminal_of_event ev \<noteq> Some FAILED)"
    if h: "handler_result E name args progressReporter w = Some (Inl e)"
      and c: "signal_aborted (snd (executeTool E name args progressReporter w))
              \<or> is_cancellation_error e"
    for e
  proof -
    from h hr have r: "fst (executeTool E name args progressReporter w) = Inl e" by simp
    then have x: "fst X = Inl e" by (simp add: ex split: sum.splits)
    have "signal_aborted (snd (executeTool E name args progressReporter w)) =
          signal_aborted (snd X)"
      by (simp add: ex x)
    with c have "signal_aborted (snd X) \<or> is_cancellation_error e" by simp
    then have "terminal_state (snd (executeTool E name args progressReporter w)) = Some CANCELLED"
      by (simp add: ex x)
    moreover have "\<forall>ev\<in>set (effects w (snd (executeTool E name args progressReporter w))).
            terminal_of_event ev \<noteq> Some FAILED"
      using cancelled_call_marks_no_failure [OF assms r c] by blast
    ultimately show ?thesis using r by simp
  qed
  have second: "handler_result E name args progressReporter w =
                Some (Inl (Err ''Request was cancelled''))"
    if "map_of tool_cases name = Some ep" and "args = Some ps"
      and "build_request ep ps (map_option abortController (request_context w)) = Inr req"
      and "fst (http E req) = Rejects c"
      and "isCancel c"
    using that
    by (simp add: handler_result_def call_endpoint_result request_options_of_def)
  have third: "fst (executeTool E name args progressReporter w) =
                  Inl (Err ''Request was cancelled'')
              \<and> terminal_state (snd (executeTool E name args progressReporter w)) =
                  Some CANCELLED"
    if "handler_result E name args progressReporter w =
                Some (Inl (Err ''Request was cancelled''))"
    using that first [of "Err ''Request was cancelled''"] by simp
  from first second third show ?thesis by blast
qed


theorem C3_cancelled_not_failed_witness:
  "canHandle ''airtable_create_records''
   \<and> \<not> signal_aborted (in_flight None)
   \<and> map_of tool_cases ''airtable_create_records'' = Some create_records_endpoint
   \<and> build_request create_records_endpoint create_args
         (map_option abortController (request_context (in_flight None))) = Inr create_request
   \<and> fst (http cancelling create_request) = Rejects (AxiosCancel ''canceled'')
   \<and> isCancel (AxiosCancel ''canceled'')
   \<and> is_cancellation_error (Err ''Request was cancelled'')
   \<and> handler_result cancelling ''airtable_create_records'' (Some create_args) True (in_flight None) =
         Some (Inl (Err ''Request was cancelled''))
   \<and> fst (executeTool cancelling ''airtable_create_records'' (Some create_args) True (in_flight None)) =
         Inl (Err ''Request was cancelled'')
   \<and> terminal_state
         (snd (executeTool cancelling ''airtable_create_records'' (Some create_args) True
                 (in_flight None))) = Some CANCELLED"
proof -
  have c: "canHandle ''airtable_create_records''"
    by (simp add: canHandle_def supportedTools_def)
  have a: "\<not> signal_aborted (in_flight None)"
    by (simp add: signal_aborted_def in_flight_def)
  have m: "map_of tool_cases ''airtable_create_records'' = Some create_records_endpoint"
    by (simp add: tool_cases_def create_records_endpoint_def)
  have b: "build_request create_records_endpoint create_args
         (map_option abortController (request_context (in_flight None))) = Inr create_request"
    by code_simp
  have h: "fst (http cancelling create_request) = Rejects (AxiosCancel ''canceled'')"
    by (simp add: cancelling_def)
  show ?thesis
    using C3_cancelled_not_failed [OF c a, of cancelling "Some create_args" True
        "Err ''Request was cancelled''" create_records_endpoint create_args create_request
        "AxiosCancel ''canceled''"] c a m b h
    by simp
qed

section \<open>Completion\<close>

text \<open>
  Claim C4. For a supported tool dispatched with the signal not aborted: when the client
  method resolves with a payload, \<open>executeTool\<close> returns that payload unchanged and the
  last log call marks the invocation as completed. When the HTTP request of the tool
  resolves with response data \<open>d\<close> (as for \<open>airtable_list_bases\<close> in the witness), the
  payload is a single content block of type \<open>text\<close> holding the JSON text of \<open>d\<close>.
\<close>

theorem C4_handler_payload_returned:
  assumes "canHandle name" and "\<not> signal_aborted w"
  shows "(handler_result E name args progressReporter w = Some (Inr r)
          \<longrightarrow> fst (executeTool E name args progressReporter w) = Inr r
              \<and> terminal_state (snd (executeTool E name args progressReporter w)) = Some COMPLETED)
       \<and> (map_of tool_cases name = Some ep \<and> args = Some ps
          \<and> build_request ep ps (map_option abortController (request_context w)) = Inr req
          \<and> fst (http E req) = Resolves d
          \<longrightarrow> handler_result E name args progressReporter w =
                Some (Inr [\<lparr>block_type = ''text'', block_text = stringify E d\<rparr>])
              \<and> fst (executeTool E name args progressReporter w) =
                  Inr [\<lparr>block_type = ''text'', block_text = stringify E d\<rparr>])"
proof -
  from assms(1) obtain ep' where ep': "map_of tool_cases name = Some ep'"
    using canHandle_case by blast
  define X where "X = call_endpoint E ep' args (request_options_of progressReporter w)
      (report (progress_target progressReporter w) 0
         (''Starting '' @ ep_name ep' @ '' operation...'')
         (log Debug ''TOOL_EXECUTE'' name
           (log Debug ''PARAM_VALIDATION'' name
             (ensureInitialized (record_event (ToolStart name) w)))))"
  note ex = executeTool_dispatched [OF assms ep' X_def]
  note hr = executeTool_result [OF assms, of E args progressReporter]
  have first: "fst (executeTool E name args progressReporter w) = Inr r
      \<and> terminal_state (snd (executeTool E name args progressReporter w)) = Some COMPLETED"
    if h: "handler_result E name args progressReporter w = Some (Inr r)" for r
  proof -
    from h hr have r: "fst (executeTool E name args progressReporter w) = Inr r" by simp
    then have x: "fst X = Inr r" by (simp add: ex split: sum.splits)
    then have "terminal_state (snd (executeTool E name args progressReporter w)) = Some COMPLETED"
      by (simp add: ex)
    with r show ?thesis by simp
  qed
  have second: "handler_result E name args progressReporter w =
                Some (Inr [\<lparr>block_type = ''text'', block_text = stringify E d\<rparr>])"
    if "map_of tool_cases name = Some ep" and "args = Some ps"
      and "build_request ep ps (map_option abortController (request_context w)) = Inr req"
      and "fst (http E req) = Resolves d"
    using that
    by (simp add: handler_result_def call_endpoint_result request_options_of_def text_result_def)
  from first second show ?thesis by blast
qed

theorem C4_handler_payload_returned_witness:
  "canHandle ''airtable_list_bases''
   \<and> \<not> signal_aborted (in_flight None)
   \<and> map_of tool_cases ''airtable_list_bases'' = Some list_bases_endpoint
   \<and> build_request list_bases_endpoint []
         (map_option abortController (request_context (in_flight None))) = Inr list_bases_request
   \<and> fst (http answering list_bases_request) = Resolves ''{}''
   \<and> handler_result answering ''airtable_list_bases'' (Some []) False (in_flight None) =
         Some (Inr [\<lparr>block_type = ''text'', block_text = ''{}''\<rparr>])
   \<and> fst (executeTool answering ''airtable_list_bases'' (Some []) False (in_flight None)) =
         Inr [\<lparr>block_type = ''text'', block_text = ''{}''\<rparr>]
   \<and> terminal_state
         (snd (executeTool answering ''airtable_list_bases'' (Some []) False (in_flight None))) =
         Some COMPLETED"
proof -
  have c: "canHandle ''airtable_list_bases''"
    by (simp add: canHandle_def supportedTools_def)
  have a: "\<not> signal_aborted (in_flight None)"
    by (simp add: signal_aborted_def in_flight_def)
  have m: "map_of tool_cases ''airtable_list_bases'' = Some list_bases_endpoint"
    by (simp add: tool_cases_def list_bases_endpoint_def)
  have b: "build_request list_bases_endpoint []
         (map_option abortController (request_context (in_flight None))) = Inr list_bases_request"
    by code_simp
  have h: "fst (http answering list_bases_request) = Resolves ''{}''"
    by (simp add: answering_def)
  have s: "stringify answering ''{}'' = ''{}''"
    by (simp add: answering_def)
  show ?thesis
    using C4_handler_payload_returned [OF c a, of answering "Some []" False
        "[\<lparr>block_type = ''text'', block_text = ''{}''\<rparr>]" list_bases_endpoint "[]"
        list_bases_request "''{}''"]
      c a m b h s
    by simp
qed

section \<open>Required parameters\<close>

text \<open>
  The request for \<open>airtable_get_record\<close> without its \<open>base_id\<close> goes out, whatever the
  HTTP client will answer: the placeholder stays in the path.
\<close>

lemma get_record_request_issued:
  "requests_of (effects (in_flight None)
      (snd (executeTool E ''airtable_get_record'' (Some get_record_args) pr (in_flight None)))) =
   [\<lparr>verb = GET, url = ''/{base_id}/Tasks/rec1'', query = [], body = None,
     abort_signal = Some 0\<rparr>]"
proof -
  have c: "canHandle ''airtable_get_record''"
    by (simp add: canHandle_def supportedTools_def)
  have a: "\<not> signal_aborted (in_flight None)"
    by (simp add: signal_aborted_def in_flight_def)
  define ep where "ep = \<lparr>ep_name = ''get_record'', ep_verb = GET,
          ep_path = ''/{base_id}/{table_id_or_name}/{record_id}'', ep_blocks = []\<rparr>"
  have m: "map_of tool_cases ''airtable_get_record'' = Some ep"
    by (simp add: tool_cases_def ep_def)
  have b: "build_request ep get_record_args (Some 0) =
     Inr \<lparr>verb = GET, url = ''/{base_id}/Tasks/rec1'', query = [], body = None,
           abort_signal = Some 0\<rparr>"
    unfolding ep_def by code_simp
  have o: "opt_signal (request_options_of pr (in_flight None)) = Some 0"
    by (simp add: request_options_of_def in_flight_def example_context_def)
  have d: "delivered tgt p msg (in_flight None) = []" for tgt p msg
    by (simp add: delivered_def in_flight_def split: option.splits)
  have "effects (in_flight None)
          (snd (call_endpoint E ep (Some get_record_args) (request_options_of pr (in_flight None))
                 (in_flight None))) = es \<Longrightarrow>
        requests_of es = [\<lparr>verb = GET, url = ''/{base_id}/Tasks/rec1'', query = [], body = None,
                            abort_signal = Some 0\<rparr>]" for es
    by (auto simp: effects_def call_endpoint_trace o b d split: http_outcome.splits)
  then show ?thesis
    by (simp add: executeTool_trace [OF c a m] d init_logs_def split: sum.splits)
qed

text \<open>
  Claim C5. Invoking a supported operation with structurally malformed input, such as
  \<open>airtable_get_record\<close> without the \<open>base_id\<close> its schema declares required, is to be
  reported as an \<open>InvalidArguments\<close> error without issuing the outbound HTTP request.
  The code does not do so. Below the comments \<open>Validate required parameters\<close> of
  \<open>executeTool\<close> and of the client methods nothing is validated: for these arguments the
  request \<open>GET /{base_id}/Tasks/rec1\<close> is issued in every environment, and when the
  server answers it the answer is returned as the success payload.
\<close>

theorem C5_missing_required_parameter:
  "canHandle ''airtable_get_record''
   \<and> js_get get_record_args ''base_id'' = JUndefined
   \<and> requests_of (effects (in_flight None)
        (snd (executeTool E ''airtable_get_record'' (Some get_record_args) progressReporter
                (in_flight None)))) =
       [\<lparr>verb = GET, url = ''/{base_id}/Tasks/rec1'', query = [], body = None,
         abort_signal = Some 0\<rparr>]
   \<and> fst (executeTool answering ''airtable_get_record'' (Some get_record_args) False (in_flight None)) =
       Inr [\<lparr>block_type = ''text'', block_text = ''{}''\<rparr>]"
proof -
  have "canHandle ''airtable_get_record''"
    by (simp add: canHandle_def supportedTools_def)
  moreover have "js_get get_record_args ''base_id'' = JUndefined"
    by (simp add: js_get_def get_record_args_def)
  moreover have "fst (executeTool answering ''airtable_get_record'' (Some get_record_args) False
                        (in_flight None)) =
       Inr [\<lparr>block_type = ''text'', block_text = ''{}''\<rparr>]"
    by code_simp
  ultimately show ?thesis
    using get_record_request_issued [of E progressReporter] by simp
qed

section \<open>Progress events\<close>

lemma notifications_simps [simp]:
  "notifications [] = []"
  "notifications (e # es) = (if is_notification e then e # notifications es else notifications es)"
  by (simp_all add: notifications_def)

lemma notifications_init_logs [simp]: "notifications (init_logs w) = []"
  by (simp add: init_logs_def)

lemma progress_events_reported:
  assumes "canHandle name" and "\<not> signal_aborted w" and "map_of tool_cases name = Some ep"
    and "progress_target pr w = Some t" and "t \<in> progress_tokens w"
    and "fst (executeTool E name args pr w) = Inr r"
  shows "notifications (effects w (snd (executeTool E name args pr w))) =
     [Notification t 0 (Some 100) (''Starting '' @ ep_name ep @ '' operation...''),
      Notification t 0 (Some 100) (''Starting '' @ ep_name ep @ '' request...''),
      Notification t 100 (Some 100) (''Completed '' @ ep_name ep @ '' request''),
      Notification t 100 (Some 100) (''Completed '' @ ep_name ep @ '' operation'')]"
proof -
  from executeTool_result [OF assms(1,2), of E args pr] assms(3,6)
  have h: "fst (call_endpoint E ep args (request_options_of pr w) w) = Inr r"
    by (simp add: handler_result_def)
  then obtain ps req d where args: "args = Some ps"
    and b: "build_request ep ps (opt_signal (request_options_of pr w)) = Inr req"
    and d: "fst (http E req) = Resolves d"
    by (auto simp: call_endpoint_result
          split: option.splits sum.splits http_outcome.splits if_splits)
  have o: "onProgress (request_options_of pr w) = Some t"
    using assms(4) by (simp add: request_options_of_def)
  have "notifications (effects w (snd (call_endpoint E ep args (request_options_of pr w) w))) =
     [Notification t 0 (Some 100) (''Starting '' @ ep_name ep @ '' request...''),
      Notification t 100 (Some 100) (''Completed '' @ ep_name ep @ '' request'')]"
    using assms(5)
    by (simp add: effects_def call_endpoint_trace args b d o delivered_def)
  then show ?thesis
    using assms(4,5,6)
    by (simp add: executeTool_trace [OF assms(1,2,3)] delivered_def)
qed

lemma no_progress_without_target:
  assumes "progress_target pr w = None"
  shows "notifications (effects w (snd (executeTool E name args pr w))) = []"
proof (cases "signal_aborted w")
  case True
  then have "effects w (snd (executeTool E name args pr w)) =
               [ToolStart name, Log Info ''TOOL_CANCELLED_EARLY'' name]"
    by (intro effects_append) (simp add: executeTool_def)
  then show ?thesis by simp
next
  case False
  show ?thesis
  proof (cases "canHandle name")
    case c: False
    have "effects w (snd (executeTool E name args pr w)) =
            [ToolStart name] @ init_logs w @ [Log Error ''TOOL_ERROR'' name]"
      using False c
      by (intro effects_append) (simp add: executeTool_def Let_def ensureInitialized_trace init_logs_def)
    then show ?thesis by simp
  next
    case c: True
    then obtain ep where ep: "map_of tool_cases name = Some ep"
      using canHandle_case by blast
    have o: "onProgress (request_options_of pr w) = None"
      using assms by (simp add: request_options_of_def)
    have "notifications (effects w (snd (call_endpoint E ep args (request_options_of pr w) w))) = []"
      by (simp add: effects_def call_endpoint_trace o delivered_def
               split: option.splits sum.splits http_outcome.splits)
    then show ?thesis
      using assms
      by (simp add: executeTool_trace [OF c False ep] delivered_def
               split: sum.splits)
  qed
qed

lemma progress_emit_registered:
  "t \<in> progress_tokens w \<Longrightarrow>
   trace (progress_emit t p tot msg w) = trace w @ [Notification t p tot msg]"
  by simp

text \<open>
  Claim C6. With a progress token and a progress reporter present, \<open>executeTool\<close> is to
  emit one start event (progress 0 of 100) before it calls the client method and, on
  success, one completion event (100 of 100) after it, in this order; without a token it
  emits none. By \<open>progress_events_reported\<close> and \<open>no_progress_without_target\<close> the code
  does so for every token that counts as true in a condition. But the presence of the
  token is tested by \<open>context?.progressToken && progressReporter\<close>: for the tokens \<open>0\<close>
  and \<open>""\<close>, present and registered, the operation completes and not one event is
  delivered.
\<close>

theorem C6_falsy_progress_token:
  "progressToken (example_context (Some (TokNum 0))) = Some (TokNum 0)
   \<and> TokNum 0 \<in> progress_tokens (in_flight (Some (TokNum 0)))
   \<and> fst (executeTool answering ''airtable_list_bases'' (Some []) True (in_flight (Some (TokNum 0)))) =
       Inr [\<lparr>block_type = ''text'', block_text = ''{}''\<rparr>]
   \<and> notifications
       (trace (snd (executeTool answering ''airtable_list_bases'' (Some []) True
                      (in_flight (Some (TokNum 0)))))) = []
   \<and> notifications
       (trace (snd (executeTool answering ''airtable_list_bases'' (Some []) True
                      (in_flight (Some (TokStr [])))))) = []"
  by code_simp

section \<open>Progress Correlator and Cancellation Registry\<close>

text \<open>
  Claim C7. A progress event emitted after the invocation has completed, that is after
  the entry of its progress token has been removed, is dropped: the state is exactly the
  state before the emission, so nothing reaches the transport and nothing is kept for
  later; registering the token again delivers nothing either.
\<close>

theorem C7_progress_after_completion_dropped:
  "progress_emit t p tot msg (progress_unregister t w) = progress_unregister t w
   \<and> trace (progress_emit t p tot msg (progress_unregister t w)) = trace w
   \<and> trace (progress_register t (progress_emit t p tot msg (progress_unregister t w))) = trace w"
  by (simp add: progress_emit_def progress_unregister_def progress_register_def)

lemma registry_cancel_registered:
  "cancellations w rid = Some a \<Longrightarrow> signals w a = None \<Longrightarrow>
   registry_cancel rid reason w = Inr (w\<lparr>signals := (signals w)(a := Some reason)\<rparr>)"
  by (simp add: registry_cancel_def abort_def)

text \<open>
  Claim C8. \<open>cancel\<close> for a request id that was never registered, or whose entry has been
  removed on completion, leaves every part of the state as it is and raises no error
  (\<open>cancel\<close> raises none for any id). Cancelling a signal that is cancelled already has no
  further effect, so a second \<open>cancel\<close> after a first changes nothing.
\<close>

theorem C8_cancel_unknown_is_noop:
  "(cancellations w rid = None \<longrightarrow> registry_cancel rid reason w = Inr w)
   \<and> registry_cancel rid reason (registry_unregister rid w) = Inr (registry_unregister rid w)
   \<and> (\<exists>w'. registry_cancel rid reason w = Inr w')
   \<and> (cancellations v rid' = Some a \<and> signals v a = Some r \<longrightarrow>
        registry_cancel rid' reason' v = Inr v)
   \<and> (registry_cancel rid' reason u = Inr u' \<longrightarrow> registry_cancel rid' reason' u' = Inr u')"
proof -
  have "registry_cancel rid' reason' u' = Inr u'" if "registry_cancel rid' reason u = Inr u'"
  proof (cases "cancellations u rid'")
    case None
    with that show ?thesis by (auto simp: registry_cancel_def)
  next
    case (Some a)
    with that have u': "u' = abort (a, reason) u" by (simp add: registry_cancel_def)
    have "signals u' a \<noteq> None" by (simp add: u' abort_def split: option.splits)
    then have "abort (a, reason') u' = u'" by (auto simp: abort_def)
    moreover have "cancellations u' rid' = Some a" by (simp add: u' Some)
    ultimately show ?thesis by (simp add: registry_cancel_def)
  qed
  then show ?thesis
    by (auto simp: registry_cancel_def registry_unregister_def abort_def split: option.splits)
qed

theorem C8_cancel_unknown_is_noop_witness:
  "cancellations (in_flight None) ''r2'' = None
   \<and> registry_cancel ''r2'' ''user'' (in_flight None) = Inr (in_flight None)
   \<and> cancellations cancelled_world ''r1'' = Some 0
   \<and> signals cancelled_world 0 = Some ''user''
   \<and> registry_cancel ''r1'' ''user'' (in_flight None) = Inr cancelled_world
   \<and> registry_cancel ''r1'' ''again'' cancelled_world = Inr cancelled_world"
proof -
  have n: "cancellations (in_flight None) ''r2'' = None"
    by (simp add: in_flight_def)
  have c: "cancellations cancelled_world ''r1'' = Some 0"
    by (simp add: cancelled_world_def in_flight_def)
  have s: "signals cancelled_world 0 = Some ''user''"
    by (simp add: cancelled_world_def)
  have f: "registry_cancel ''r1'' ''user'' (in_flight None) = Inr cancelled_world"
    by (simp add: registry_cancel_def abort_def cancelled_world_def in_flight_def)
  show ?thesis
    using C8_cancel_unknown_is_noop [of "in_flight None" "''r2''" "''user''" cancelled_world
        "''r1''" 0 "''user''" "''again''" "in_flight None" cancelled_world] n c s f
    by simp
qed

section \<open>The request context is only read\<close>

text \<open>
  Claim C9. On every exit path \<open>executeTool\<close> leaves the \<open>RequestContext\<close> object as it
  found it (\<open>requestId\<close>, \<open>progressToken\<close>, \<open>abortController\<close> and the rest). A signal
  that is aborted stays aborted with its reason, and the signals after the call are those
  before it, or those after the aborts that the environment made while the HTTP request
  of the call was in flight: \<open>executeTool\<close> aborts no signal itself.
\<close>

theorem C9_context_not_mutated:
  "request_context (snd (executeTool E name args progressReporter w)) = request_context w
   \<and> (\<forall>a r. signals w a = Some r \<longrightarrow>
              signals (snd (executeTool E name args progressReporter w)) a = Some r)
   \<and> (signals (snd (executeTool E name args progressReporter w)) = signals w
      \<or> (\<exists>req. signals (snd (executeTool E name args progressReporter w)) =
                  signals (fold abort (snd (http E req)) w)))"
proof -
  have "signals (snd (executeTool E name args progressReporter w)) a = Some r"
    if "signals w a = Some r" for a r
    using executeTool_signals [of E name args progressReporter w] that
    by (auto simp: fold_abort_keeps)
  then show ?thesis
    using executeTool_request_context executeTool_signals by blast
qed

theorem C9_context_not_mutated_witness:
  "signals cancelled_world 0 = Some ''user''
   \<and> signals (snd (executeTool cancelling ''airtable_list_bases'' (Some []) True cancelled_world)) 0 =
       Some ''user''
   \<and> request_context (snd (executeTool cancelling ''airtable_list_bases'' (Some []) True cancelled_world)) =
       Some (example_context None)"
proof -
  have s: "signals cancelled_world 0 = Some ''user''"
    by (simp add: cancelled_world_def)
  have r: "request_context cancelled_world = Some (example_context None)"
    by (simp add: cancelled_world_def in_flight_def)
  show ?thesis
    using C9_context_not_mutated [of cancelling "''airtable_list_bases''" "Some []" True
        cancelled_world] s r
    by simp
qed

section \<open>\<open>buildPath\<close> substitutes the placeholders\<close>

subsection \<open>The encoding\<close>

lemma of_char_hex_digit:
  "d < 16 \<Longrightarrow> (of_char (hex_digit d) :: nat) = (if d < 10 then 48 + d else 55 + d)"
  by (simp add: hex_digit_def)

lemma hex_digit_not_brace:
  assumes "d < 16"
  shows "hex_digit d \<noteq> CHR ''{''" and "hex_digit d \<noteq> CHR ''}''"
proof -
  have "(of_char (hex_digit d) :: nat) < 123"
    using assms by (simp add: of_char_hex_digit)
  then show "hex_digit d \<noteq> CHR ''{''" and "hex_digit d \<noteq> CHR ''}''"
    by auto
qed

lemma brace_free_percent_escape: "brace_free (percent_escape c)"
proof -
  have "(of_char c :: nat) < 256" by simp
  then have hi: "(of_char c :: nat) div 16 < 16" by (simp add: less_mult_imp_div_less)
  have lo: "(of_char c :: nat) mod 16 < 16" by simp
  show ?thesis
    using hex_digit_not_brace [OF hi] hex_digit_not_brace [OF lo]
    by (auto simp: brace_free_def percent_escape_def)
qed

lemma brace_free_append [simp]:
  "brace_free (xs @ ys) = (brace_free xs \<and> brace_free ys)"
  by (auto simp: brace_free_def)

lemma brace_free_Nil [simp]: "brace_free []"
  by (simp add: brace_free_def)

lemma brace_free_unreserved: "uri_unreserved c \<Longrightarrow> brace_free [c]"
  by (auto simp: uri_unreserved_def brace_free_def)

lemma brace_free_uri_encoded: "brace_free (uri_encoded_keeping_slashes t)"
proof (induction t)
  case Nil
  then show ?case by (simp add: uri_encoded_keeping_slashes_def)
next
  case (Cons c t)
  have "brace_free [CHR ''/'']"
    by (simp add: brace_free_def)
  with Cons show ?case
    by (simp add: uri_encoded_keeping_slashes_def brace_free_percent_escape
          brace_free_unreserved)
qed

lemma unescape_other:
  assumes "a \<noteq> CHR ''%''"
  shows "unescape_slashes (a # cs) = a # unescape_slashes cs"
proof (cases cs)
  case Nil
  then show ?thesis by simp
next
  case (Cons b cs')
  with assms show ?thesis by (cases cs') auto
qed

lemma hex_digit_not_percent: "d < 16 \<Longrightarrow> hex_digit d \<noteq> CHR ''%''"
proof
  assume "d < 16" and "hex_digit d = CHR ''%''"
  then have "(if d < 10 then 48 + d else 55 + d) = (of_char (CHR ''%'') :: nat)"
    using of_char_hex_digit [of d] by simp
  then show False by (simp split: if_splits)
qed

lemma hex_digit_2: "d < 16 \<Longrightarrow> hex_digit d = CHR ''2'' \<longleftrightarrow> d = 2"
proof
  assume "d < 16" and "hex_digit d = CHR ''2''"
  then have "(if d < 10 then 48 + d else 55 + d) = (of_char (CHR ''2'') :: nat)"
    using of_char_hex_digit [of d] by simp
  then show "d = 2" by (simp split: if_splits)
next
  have "hex_digit 2 = CHR ''2''" by code_simp
  moreover assume "d = 2"
  ultimately show "hex_digit d = CHR ''2''" by simp
qed

lemma hex_digit_F: "d < 16 \<Longrightarrow> hex_digit d = CHR ''F'' \<longleftrightarrow> d = 15"
proof
  assume "d < 16" and "hex_digit d = CHR ''F''"
  then have "(if d < 10 then 48 + d else 55 + d) = (of_char (CHR ''F'') :: nat)"
    using of_char_hex_digit [of d] by simp
  then show "d = 15" by (simp split: if_splits)
next
  have "hex_digit 15 = CHR ''F''" by code_simp
  moreover assume "d = 15"
  ultimately show "hex_digit d = CHR ''F''" by simp
qed

lemma percent_escape_slash: "percent_escape c = ''%2F'' \<longleftrightarrow> c = CHR ''/''"
proof -
  have "(of_char c :: nat) < 256" by simp
  then have hi: "(of_char c :: nat) div 16 < 16" by (simp add: less_mult_imp_div_less)
  have lo: "(of_char c :: nat) mod 16 < 16" by simp
  have "percent_escape c = ''%2F'' \<longleftrightarrow>
        (of_char c :: nat) div 16 = 2 \<and> (of_char c :: nat) mod 16 = 15"
    by (simp add: percent_escape_def hex_digit_2 [OF hi] hex_digit_F [OF lo])
  also have "\<dots> \<longleftrightarrow> (of_char c :: nat) = 47"
    by presburger
  also have "\<dots> \<longleftrightarrow> (of_char c :: nat) = of_char (CHR ''/'')"
    by simp
  also have "\<dots> \<longleftrightarrow> c = CHR ''/''"
    by (simp only: of_char_eq_iff)
  finally show ?thesis .
qed

lemma unescape_percent_escape:
  "unescape_slashes (percent_escape c @ cs) =
     (if c = CHR ''/'' then CHR ''/'' # unescape_slashes cs
      else percent_escape c @ unescape_slashes cs)"
proof -
  have "(of_char c :: nat) < 256" by simp
  then have hi: "(of_char c :: nat) div 16 < 16" by (simp add: less_mult_imp_div_less)
  have lo: "(of_char c :: nat) mod 16 < 16" by simp
  obtain h1 h2 where pe: "percent_escape c = [CHR ''%'', h1, h2]"
    and h1: "h1 \<noteq> CHR ''%''" and h2: "h2 \<noteq> CHR ''%''"
    using hex_digit_not_percent [OF hi] hex_digit_not_percent [OF lo]
    by (simp add: percent_escape_def)
  show ?thesis
  proof (cases "c = CHR ''/''")
    case True
    then have "percent_escape c = ''%2F''" by (simp add: percent_escape_slash)
    with True show ?thesis by simp
  next
    case False
    then have "[CHR ''%'', h1, h2] \<noteq> ''%2F''"
      using percent_escape_slash [of c] pe by simp
    then have "unescape_slashes (CHR ''%'' # h1 # h2 # cs) =
               CHR ''%'' # unescape_slashes (h1 # h2 # cs)"
      by simp
    also have "\<dots> = CHR ''%'' # h1 # h2 # unescape_slashes cs"
      by (simp add: unescape_other h1 h2)
    finally show ?thesis using False pe by simp
  qed
qed

text \<open>
  Unescaping \<open>%2F\<close> in the output of \<open>encodeURIComponent\<close> gives the encoding that keeps
  the slash, byte by byte.
\<close>

lemma unescape_escaped:
  "unescape_slashes (concat (map (\<lambda>c. if uri_unreserved c then [c] else percent_escape c) s)) =
   uri_encoded_keeping_slashes s"
proof (induction s)
  case Nil
  then show ?case by (simp add: uri_encoded_keeping_slashes_def)
next
  case (Cons c s)
  have u: "uri_unreserved c \<Longrightarrow> c \<noteq> CHR ''%''"
    by (auto simp: uri_unreserved_def)
  have n: "\<not> uri_unreserved (CHR ''/'')"
    by (simp add: uri_unreserved_def)
  from Cons show ?case
    by (auto simp: uri_encoded_keeping_slashes_def unescape_other u n unescape_percent_escape)
qed

lemma encodePathComponent_utf8:
  "utf8 t \<Longrightarrow> encodePathComponent t = Inr (uri_encoded_keeping_slashes t)"
  by (simp add: encodePathComponent_def encodeURIComponent_def unescape_escaped)

lemma encodePathComponent_surrogate:
  "\<not> utf8 t \<Longrightarrow> encodePathComponent t = Inl URIError"
  by (simp add: encodePathComponent_def encodeURIComponent_def)

text \<open>\<open>String\<close> throws nothing but its \<open>TypeError\<close>.\<close>

lemma js_String_throws:
  "js_String v = Inl e \<Longrightarrow> e = primitive_TypeError"
  "js_element v = Inl e \<Longrightarrow> e = primitive_TypeError"
  "js_join vs = Inl e \<Longrightarrow> e = primitive_TypeError"
  by (induction v and v and vs rule: js_String_js_element_js_join.induct)
     (auto split: if_splits sum.splits)

lemma encode_value_convertible:
  "convertible v \<Longrightarrow> encode_value v = Inr (uri_encoded_keeping_slashes (value_text v))"
  by (auto simp: convertible_def encode_value_def value_text_def encodePathComponent_utf8
        split: sum.splits)

lemma encode_value_throws:
  assumes "\<not> convertible v"
  shows "encode_value v = Inl primitive_TypeError \<or> encode_value v = Inl URIError"
proof (cases "js_String v")
  case (Inl e)
  then have "e = primitive_TypeError"
    by (rule js_String_throws)
  with Inl show ?thesis
    by (simp add: encode_value_def)
next
  case (Inr t)
  with assms have "\<not> utf8 t"
    by (simp add: convertible_def)
  with Inr show ?thesis
    by (simp add: encode_value_def encodePathComponent_surrogate)
qed

subsection \<open>Search and replacement in a rendered template\<close>

lemma render_simps [simp]:
  "render [] = []"
  "render (Lit l # segs) = l @ render segs"
  "render (Hole k # segs) = hole_text k @ render segs"
  by (simp_all add: render_def)

lemma google_at_other: "c \<noteq> CHR ''{'' \<Longrightarrow> google_at (c # cs) = None"
  by (simp add: google_at_def)

lemma google_at_hole:
  assumes "brace_free k" and "CHR ''='' \<notin> set k"
  shows "google_at (hole_text k @ s) = None"
proof -
  have n: "\<forall>x\<in>set k. name_char x"
    using assms by (auto simp: name_char_def brace_free_def)
  have t: "takeWhile name_char (k @ CHR ''}'' # s) = k"
    using n by (simp add: name_char_def)
  have d: "dropWhile name_char (k @ CHR ''}'' # s) = CHR ''}'' # s"
    using n by (simp add: name_char_def)
  show ?thesis
    by (simp add: google_at_def hole_text_def t d)
qed

lemma google_scan_skip_lit:
  "CHR ''{'' \<notin> set l \<Longrightarrow> google_scan 0 (l @ s) = google_scan 0 s"
  by (induction l) (auto simp: google_at_def)

lemma google_scan_hole:
  assumes "brace_free k" and "CHR ''='' \<notin> set k"
  shows "google_scan 0 (hole_text k @ s) = google_scan 0 s"
proof -
  have "google_scan 0 (hole_text k @ s) = google_scan 0 ((k @ ''}'') @ s)"
    using google_at_hole [OF assms, of s] by (simp add: hole_text_def)
  also have "\<dots> = google_scan 0 s"
    using assms(1) by (intro google_scan_skip_lit) (simp add: brace_free_def)
  finally show ?thesis .
qed

lemma google_matches_render:
  "list_all wf_seg segs \<Longrightarrow> google_matches (render segs) = []"
  unfolding google_matches_def
proof (induction segs)
  case Nil
  then show ?case by simp
next
  case (Cons seg segs)
  then show ?case
    by (cases seg) (simp_all add: google_scan_skip_lit google_scan_hole brace_free_def)
qed

lemma prefix_hole_iff:
  "CHR ''}'' \<notin> set k \<Longrightarrow> CHR ''}'' \<notin> set k' \<Longrightarrow>
   prefix (k @ ''}'') (k' @ CHR ''}'' # s) \<longleftrightarrow> k = k'"
proof (induction k arbitrary: k')
  case Nil
  then show ?case by (cases k') auto
next
  case (Cons c k)
  then show ?case by (cases k') auto
qed

lemma includes_skip_lit:
  "CHR ''{'' \<notin> set l \<Longrightarrow> str_includes (hole_text k) (l @ s) = str_includes (hole_text k) s"
  by (induction l) (auto simp: hole_text_def)

lemma replace_skip_lit:
  "CHR ''{'' \<notin> set l \<Longrightarrow>
   replace_first (hole_text k) rep (l @ s) = l @ replace_first (hole_text k) rep s"
  by (induction l) (auto simp: hole_text_def)

lemma includes_hole:
  assumes "brace_free k" and "brace_free k'"
  shows "str_includes (hole_text k) (hole_text k' @ s) \<longleftrightarrow> k = k' \<or> str_includes (hole_text k) s"
proof -
  have p: "prefix (hole_text k) (hole_text k' @ s) \<longleftrightarrow> k = k'"
    using assms prefix_hole_iff [of k k' s] by (simp add: hole_text_def brace_free_def)
  have "str_includes (hole_text k) ((k' @ ''}'') @ s) = str_includes (hole_text k) s"
    using assms(2) by (intro includes_skip_lit) (simp add: brace_free_def)
  then have "str_includes (hole_text k) (hole_text k' @ s) \<longleftrightarrow>
             prefix (hole_text k) (hole_text k' @ s) \<or> str_includes (hole_text k) s"
    by (simp add: hole_text_def)
  with p show ?thesis by simp
qed

lemma replace_hole:
  assumes "brace_free k" and "brace_free k'"
  shows "replace_first (hole_text k) rep (hole_text k' @ s) =
         (if k = k' then rep @ s else hole_text k' @ replace_first (hole_text k) rep s)"
proof -
  have p: "prefix (hole_text k) (hole_text k' @ s) \<longleftrightarrow> k = k'"
    using assms prefix_hole_iff [of k k' s] by (simp add: hole_text_def brace_free_def)
  have r: "replace_first (hole_text k) rep ((k' @ ''}'') @ s) =
           (k' @ ''}'') @ replace_first (hole_text k) rep s"
    using assms(2) by (intro replace_skip_lit) (simp add: brace_free_def)
  have d: "drop (length (hole_text k)) (hole_text k @ s) = s"
    by simp
  show ?thesis
  proof (cases "k = k'")
    case True
    with p have "prefix (hole_text k) (hole_text k @ s)" by simp
    then have "replace_first (hole_text k) rep (hole_text k @ s) =
               rep @ drop (length (hole_text k)) (hole_text k @ s)"
      by (simp add: hole_text_def)
    with True d show ?thesis by simp
  next
    case False
    with p have "\<not> prefix (hole_text k) (hole_text k' @ s)" by simp
    then have "replace_first (hole_text k) rep (hole_text k' @ s) =
               CHR ''{'' # replace_first (hole_text k) rep ((k' @ ''}'') @ s)"
      by (simp add: hole_text_def)
    with False r show ?thesis by (simp add: hole_text_def)
  qed
qed


lemma hole_text_not_Nil [simp]: "hole_text k \<noteq> []"
  by (simp add: hole_text_def)

lemma holes_iff: "k \<in> set (holes segs) \<longleftrightarrow> Hole k \<in> set segs"
  by (induction segs rule: holes.induct) auto

lemma includes_render:
  "list_all wf_seg segs \<Longrightarrow> brace_free k \<Longrightarrow>
   str_includes (hole_text k) (render segs) \<longleftrightarrow> k \<in> set (holes segs)"
proof (induction segs rule: holes.induct)
  case 1
  then show ?case by simp
next
  case (2 s segs)
  then show ?case by (simp add: includes_skip_lit brace_free_def)
next
  case (3 k' segs)
  then show ?case by (auto simp: includes_hole)
qed

lemma replace_render:
  "list_all wf_seg segs \<Longrightarrow> brace_free k \<Longrightarrow>
   replace_first (hole_text k) rep (render segs) = render (fill_first k rep segs)"
proof (induction segs rule: holes.induct)
  case 1
  then show ?case by simp
next
  case (2 s segs)
  then show ?case by (simp add: replace_skip_lit brace_free_def)
next
  case (3 k' segs)
  then show ?case by (auto simp: replace_hole)
qed

lemma holes_fill_first: "holes (fill_first k rep segs) = remove1 k (holes segs)"
  by (induction segs rule: holes.induct) auto

lemma wf_fill_first:
  "list_all wf_seg segs \<Longrightarrow> brace_free rep \<Longrightarrow> list_all wf_seg (fill_first k rep segs)"
  by (induction segs rule: holes.induct) auto

lemma fill_seg_absent:
  "k \<notin> set (holes segs) \<Longrightarrow> map (fill_seg ((k, v) # es)) segs = map (fill_seg es) segs"
  by (induction segs rule: holes.induct) auto

lemma fill_first_then_map:
  "distinct (holes segs) \<Longrightarrow>
   map (fill_seg es) (fill_first k (uri_encoded_keeping_slashes (value_text v)) segs) =
   map (fill_seg ((k, v) # es)) segs"
proof (induction segs rule: holes.induct)
  case 1
  then show ?case by simp
next
  case (2 s segs)
  then show ?case by simp
next
  case (3 k' segs)
  show ?case
  proof (cases "k' = k")
    case True
    with 3 have "k \<notin> set (holes segs)" by simp
    then have "map (fill_seg ((k, v) # es)) segs = map (fill_seg es) segs"
      by (rule fill_seg_absent)
    with True show ?thesis by simp
  next
    case False
    with 3 show ?thesis by simp
  qed
qed

lemma wf_map_fill:
  "list_all wf_seg segs \<Longrightarrow> list_all wf_seg (map (fill_seg ps) segs)"
  by (induction segs rule: holes.induct)
     (auto simp: brace_free_uri_encoded split: option.splits)

lemma holes_map_fill:
  "k \<in> set (holes segs) \<Longrightarrow> map_of ps k = None \<Longrightarrow> k \<in> set (holes (map (fill_seg ps) segs))"
  by (induction segs rule: holes.induct) (auto split: option.splits)

subsection \<open>The second loop on a rendered template\<close>

lemma all_convertible_iff:
  "all_convertible ps segs \<longleftrightarrow>
   (\<forall>k v. k \<in> set (holes segs) \<and> map_of ps k = Some v \<longrightarrow> convertible v)"
  by (auto simp: all_convertible_def list_all_iff split: option.splits)

lemma all_convertible_absent:
  "k \<notin> set (holes segs) \<Longrightarrow> all_convertible ((k, v) # es) segs = all_convertible es segs"
  by (auto simp: all_convertible_iff)

lemma all_convertible_present:
  "k \<in> set (holes segs) \<Longrightarrow> distinct (holes segs) \<Longrightarrow>
   all_convertible ((k, v) # es) segs =
     (convertible v \<and> all_convertible es (fill_first k rep segs))"
  by (auto simp: all_convertible_iff holes_fill_first)

text \<open>
  The second loop of \<open>buildPath\<close> on a rendered template: it returns the template with
  the placeholders filled, or it throws when it comes to a value that cannot be put into
  a path.
\<close>

lemma standard_loop_render:
  assumes "list_all wf_seg segs" and "distinct (holes segs)"
    and "list_all brace_free (map fst es)"
    and "\<forall>k\<in>set processed. k \<notin> set (holes segs)"
  shows "if all_convertible es segs
         then map_sum id fst (standard_loop es (render segs, processed)) =
                Inr (render (map (fill_seg es) segs))
         else standard_loop es (render segs, processed) \<in> {Inl primitive_TypeError, Inl URIError}"
  using assms
proof (induction es arbitrary: segs processed)
  case Nil
  have "map (fill_seg []) segs = segs"
    by (induction segs rule: holes.induct) auto
  then show ?case by (simp add: all_convertible_iff)
next
  case (Cons kv es)
  obtain k v where kv: "kv = (k, v)" by (cases kv)
  from Cons.prems(3) kv have bk: "brace_free k" and bes: "list_all brace_free (map fst es)"
    by auto
  let ?rep = "uri_encoded_keeping_slashes (value_text v)"
  have inc: "str_includes (''{'' @ k @ ''}'') (render segs) \<longleftrightarrow> k \<in> set (holes segs)"
    using includes_render [OF Cons.prems(1) bk] by (simp add: hole_text_def)
  have rep: "replace_first (''{'' @ k @ ''}'') ?rep (render segs) = render (fill_first k ?rep segs)"
    using replace_render [OF Cons.prems(1) bk] by (simp add: hole_text_def)
  show ?case
  proof (cases "k \<in> set (holes segs)")
    case False
    have l: "standard_loop (kv # es) (render segs, processed) =
             standard_loop es (render segs, processed)"
      using False inc by (simp add: kv Let_def)
    have a: "all_convertible (kv # es) segs = all_convertible es segs"
      using False by (simp add: kv all_convertible_absent)
    have m: "map (fill_seg (kv # es)) segs = map (fill_seg es) segs"
      using False by (simp add: kv fill_seg_absent)
    show ?thesis
      unfolding l a m by (rule Cons.IH [OF Cons.prems(1,2) bes Cons.prems(4)])
  next
    case True
    with Cons.prems(4) have np: "k \<notin> set processed" by auto
    have ac: "all_convertible (kv # es) segs =
              (convertible v \<and> all_convertible es (fill_first k ?rep segs))"
      using True Cons.prems(2) by (simp add: kv all_convertible_present)
    show ?thesis
    proof (cases "convertible v")
      case False
      from encode_value_throws [OF False] obtain e
        where e: "encode_value v = Inl e" and t: "e = primitive_TypeError \<or> e = URIError"
        by auto
      have "standard_loop (kv # es) (render segs, processed) = Inl e"
        using True np inc e by (simp add: kv Let_def)
      with t ac False show ?thesis by auto
    next
      case cv: True
      have w: "list_all wf_seg (fill_first k ?rep segs)"
        using Cons.prems(1) by (simp add: wf_fill_first brace_free_uri_encoded)
      have d: "distinct (holes (fill_first k ?rep segs))"
        using Cons.prems(2) by (simp add: holes_fill_first)
      have p: "\<forall>k'\<in>set (processed @ [k]). k' \<notin> set (holes (fill_first k ?rep segs))"
        using Cons.prems(2,4) by (auto simp: holes_fill_first)
      have l: "standard_loop (kv # es) (render segs, processed) =
               standard_loop es (render (fill_first k ?rep segs), processed @ [k])"
        using True np inc rep cv by (simp add: kv Let_def encode_value_convertible)
      have m: "map (fill_seg (kv # es)) segs = map (fill_seg es) (fill_first k ?rep segs)"
        using Cons.prems(2) by (simp only: kv fill_first_then_map)
      have a: "all_convertible (kv # es) segs = all_convertible es (fill_first k ?rep segs)"
        using ac cv by simp
      show ?thesis
        unfolding l a m by (rule Cons.IH [OF w d bes p])
    qed
  qed
qed

subsection \<open>\<open>buildPath\<close> on a rendered template\<close>

lemma buildPath_render:
  assumes "well_formed segs" and "list_all brace_free (map fst ps)"
  shows "if all_convertible ps segs
         then buildPath (render segs) ps = Inr (substitute ps segs)
         else buildPath (render segs) ps \<in> {Inl primitive_TypeError, Inl URIError}"
proof -
  from assms(1) have w: "list_all wf_seg segs" and d: "distinct (holes segs)"
    by (simp_all add: well_formed_def)
  have b: "buildPath (render segs) ps =
           (case standard_loop ps (render segs, []) of
              Inl e \<Rightarrow> Inl e
            | Inr (path, processed) \<Rightarrow> Inr path)"
    by (simp add: buildPath_def google_matches_render [OF w])
  have s: "if all_convertible ps segs
           then map_sum id fst (standard_loop ps (render segs, [])) =
                  Inr (render (map (fill_seg ps) segs))
           else standard_loop ps (render segs, []) \<in> {Inl primitive_TypeError, Inl URIError}"
    by (rule standard_loop_render [OF w d assms(2)]) simp
  show ?thesis
  proof (cases "standard_loop ps (render segs, [])")
    case (Inl e)
    with s b show ?thesis by (auto split: if_splits)
  next
    case (Inr st)
    with s b show ?thesis by (cases st) (auto simp: substitute_def split: if_splits)
  qed
qed

text \<open>
  The nine templates are the path templates of the eighteen endpoints, and each is made
  of brace-free text and placeholders that occur once.
\<close>

lemma client_templates_cover:
  "set (map render client_templates) = set (map (ep_path \<circ> snd) tool_cases)"
  by code_simp

lemma client_templates_well_formed: "list_all well_formed client_templates"
  by code_simp

text \<open>
  What \<open>buildPath\<close> puts into a path has no \<open>$\<close>, the one character with a meaning in
  the second argument of \<open>replace\<close>.
\<close>

lemma hex_digit_not_dollar: "d < 16 \<Longrightarrow> hex_digit d \<noteq> CHR ''$''"
proof
  assume "d < 16" and "hex_digit d = CHR ''$''"
  then have "(if d < 10 then 48 + d else 55 + d) = (of_char (CHR ''$'') :: nat)"
    using of_char_hex_digit [of d] by simp
  then show False by (simp split: if_splits)
qed

lemma replacement_without_dollar:
  assumes "encode_value v = Inr rep"
  shows "CHR ''$'' \<notin> set rep"
proof -
  have p: "CHR ''$'' \<notin> set (percent_escape c)" for c
  proof -
    have "(of_char c :: nat) < 256" by simp
    then have hi: "(of_char c :: nat) div 16 < 16" by (simp add: less_mult_imp_div_less)
    have lo: "(of_char c :: nat) mod 16 < 16" by simp
    show ?thesis
      using hex_digit_not_dollar [OF hi] hex_digit_not_dollar [OF lo]
      by (auto simp: percent_escape_def)
  qed
  have u: "uri_unreserved c \<Longrightarrow> c \<noteq> CHR ''$''" for c
    by (auto simp: uri_unreserved_def)
  have e: "CHR ''$'' \<notin> set (uri_encoded_keeping_slashes t)" for t
    using p u by (induction t) (auto simp: uri_encoded_keeping_slashes_def)
  from assms obtain t where "js_String v = Inr t" and r: "encodePathComponent t = Inr rep"
    by (auto simp: encode_value_def split: sum.splits)
  from r have "utf8 t"
    by (auto simp: encodePathComponent_def encodeURIComponent_def split: if_splits)
  with r have "rep = uri_encoded_keeping_slashes t"
    by (simp add: encodePathComponent_utf8)
  with e show ?thesis by simp
qed

text \<open>
  Claim C10. For every path template and parameter map, \<open>buildPath\<close> is said to replace
  each placeholder \<open>{key}\<close> whose key is in the map by the URI-encoded value, slashes
  kept, and to leave every placeholder whose key is absent as it is written, so that a
  call without \<open>base_id\<close> gets a path that still contains \<open>{base_id}\<close> and no error.

  This is proved for the templates of brace-free literal text and placeholders \<open>{name}\<close>
  (names without braces and \<open>=\<close>) in which no placeholder occurs twice, as the nine
  templates of the client are, and for the maps whose keys have no braces, as the keys
  taken from those templates are. For such a template and map, \<open>buildPath\<close> returns the
  substituted path if \<open>String\<close> gives a text for the value of every placeholder and
  the text has no surrogate without partner; the encoding is the one stated byte by
  byte in \<open>uri_encoded_keeping_slashes\<close>, and the absent placeholders are in the returned
  path. If a placeholder has another value, \<open>buildPath\<close> returns no path: it throws the
  \<open>TypeError\<close> of \<open>String\<close> or the \<open>URIError\<close> of \<open>encodeURIComponent\<close>.
\<close>

theorem C10_buildPath_substitutes:
  assumes "well_formed segs" and "list_all brace_free (map fst ps)"
  shows "(all_convertible ps segs \<longrightarrow>
            (buildPath (render segs) ps = Inr (substitute ps segs)
             \<and> (\<forall>k. Hole k \<in> set segs \<and> map_of ps k = None \<longrightarrow>
                      str_includes (hole_text k) (substitute ps segs))))
       \<and> (\<not> all_convertible ps segs \<longrightarrow>
            (buildPath (render segs) ps = Inl primitive_TypeError
             \<or> buildPath (render segs) ps = Inl URIError))"
proof -
  from assms(1) have w: "list_all wf_seg segs"
    by (simp add: well_formed_def)
  have b: "if all_convertible ps segs
           then buildPath (render segs) ps = Inr (substitute ps segs)
           else buildPath (render segs) ps \<in> {Inl primitive_TypeError, Inl URIError}"
    using assms by (rule buildPath_render)
  have "str_includes (hole_text k) (substitute ps segs)"
    if "Hole k \<in> set segs" and "map_of ps k = None" for k
  proof -
    from w have "\<forall>x\<in>set segs. wf_seg x" by (simp add: list_all_iff)
    with that(1) have "wf_seg (Hole k)" by blast
    then have bk: "brace_free k" by simp
    from that(1) have "k \<in> set (holes segs)"
      by (simp only: holes_iff)
    then have "k \<in> set (holes (map (fill_seg ps) segs))"
      using that(2) by (rule holes_map_fill)
    then show ?thesis
      using includes_render [OF wf_map_fill [OF w] bk, of ps] by (simp add: substitute_def)
  qed
  with b show ?thesis by (auto split: if_splits)
qed

theorem C10_buildPath_substitutes_witness:
  "well_formed get_record_template
   \<and> list_all brace_free (map fst record_path_params)
   \<and> all_convertible record_path_params get_record_template
   \<and> render get_record_template = ''/{base_id}/{table_id_or_name}/{record_id}''
   \<and> Hole ''base_id'' \<in> set get_record_template
   \<and> map_of record_path_params ''base_id'' = None
   \<and> buildPath ''/{base_id}/{table_id_or_name}/{record_id}'' record_path_params =
       Inr ''/{base_id}/My%20Table/v2/rec1''
   \<and> str_includes ''{base_id}'' ''/{base_id}/My%20Table/v2/rec1''
   \<and> well_formed base_schema_template
   \<and> list_all brace_free (map fst surrogate_args)
   \<and> \<not> all_convertible surrogate_args base_schema_template
   \<and> render base_schema_template = ''/meta/bases/{base_id}/tables''
   \<and> (buildPath ''/meta/bases/{base_id}/tables'' surrogate_args = Inl primitive_TypeError
      \<or> buildPath ''/meta/bases/{base_id}/tables'' surrogate_args = Inl URIError)"
proof -
  have w: "well_formed get_record_template"
    by (simp add: well_formed_def get_record_template_def brace_free_def)
  have b: "list_all brace_free (map fst record_path_params)"
    by (simp add: record_path_params_def brace_free_def)
  have a: "all_convertible record_path_params get_record_template"
    by code_simp
  have r: "render get_record_template = ''/{base_id}/{table_id_or_name}/{record_id}''"
    by (simp add: get_record_template_def hole_text_def)
  have h: "Hole ''base_id'' \<in> set get_record_template"
    by (simp add: get_record_template_def)
  have m: "map_of record_path_params ''base_id'' = None"
    by (simp add: record_path_params_def)
  have s: "substitute record_path_params get_record_template = ''/{base_id}/My%20Table/v2/rec1''"
    by code_simp
  have t: "hole_text ''base_id'' = ''{base_id}''"
    by (simp add: hole_text_def)
  have w': "well_formed base_schema_template"
    by (simp add: well_formed_def base_schema_template_def brace_free_def)
  have b': "list_all brace_free (map fst surrogate_args)"
    by (simp add: surrogate_args_def brace_free_def)
  have a': "\<not> all_convertible surrogate_args base_schema_template"
    by code_simp
  have r': "render base_schema_template = ''/meta/bases/{base_id}/tables''"
    by (simp add: base_schema_template_def hole_text_def)
  show ?thesis
    using C10_buildPath_substitutes [OF w b] C10_buildPath_substitutes [OF w' b']
      w b a r h m s t w' b' a' r'
    by auto
qed

text \<open>
  A tool call can carry such a value. JSON arguments whose \<open>base_id\<close> is the escape
  of \<open>U+D800\<close> give \<open>airtable_get_base_schema\<close> one surrogate without partner: the key
  is in the map, yet \<open>buildPath\<close> returns no path with the encoded value in place of
  \<open>{base_id}\<close>, it throws; the client sends no request and the call fails. It is the
  same with the JSON object \<open>{"toString": 1}\<close> as \<open>base_id\<close>.
\<close>

theorem C10_unconvertible_value_counterexample:
  "map_option ep_path (map_of tool_cases ''airtable_get_base_schema'') =
     Some ''/meta/bases/{base_id}/tables''
   \<and> map_of surrogate_args ''base_id'' = Some (JStr lone_surrogate)
   \<and> buildPath ''/meta/bases/{base_id}/tables'' surrogate_args = Inl (Err ''URI malformed'')
   \<and> fst (executeTool answering ''airtable_get_base_schema'' (Some surrogate_args) False
            (in_flight None)) =
       Inl (Err ''Failed to execute get_base_schema: URI malformed'')
   \<and> requests_of
       (trace (snd (executeTool answering ''airtable_get_base_schema'' (Some surrogate_args)
                      False (in_flight None)))) = []
   \<and> map_of object_args ''base_id'' = Some (JObj [(''toString'', JNum ''1'')])
   \<and> buildPath ''/meta/bases/{base_id}/tables'' object_args =
       Inl (Err ''Cannot convert object to primitive value'')
   \<and> fst (executeTool answering ''airtable_get_base_schema'' (Some object_args) False
            (in_flight None)) =
       Inl (Err ''Failed to execute get_base_schema: Cannot convert object to primitive value'')"
  by code_simp

text \<open>
  Why the templates are taken without a repeated placeholder and the keys without
  braces: \<open>replace\<close> with a string pattern replaces the first occurrence only, and a key
  with braces can span two placeholders. No template and no key of the client is like
  that.
\<close>

lemma buildPath_first_occurrence_only:
  "render twice_template = ''/{a}/{a}''
   \<and> buildPath ''/{a}/{a}'' [(''a'', JStr ''x'')] = Inr ''/x/{a}''
   \<and> substitute [(''a'', JStr ''x'')] twice_template = ''/x/x''
   \<and> render adjacent_template = ''/{a}{b}''
   \<and> buildPath ''/{a}{b}'' spanning_params = Inr ''/x''
   \<and> substitute spanning_params adjacent_template = ''/{a}{b}''"
  by code_simp

end
